theory Spec2Isabelle
  imports Complex_Main "HOL-Library.Char_ord" "HOL-Library.List_Lexorder"
begin

section \<open>Strings and characters\<close>

text \<open>
  A Python \<open>str\<close> is modelled as a \<open>string\<close> whose characters are the code points
  0..255 (\<open>ord c\<close> is the code point). On that range the character classes below are the
  ones of CPython: \<open>str.isdigit\<close> holds for the ten decimal digits and for the
  superscripts U+00B2, U+00B3 and U+00B9; \<open>int\<close> of a one-character string succeeds on
  the ten decimal digits only; \<open>str.split()\<close> and \<open>str.strip()\<close> treat
  U+0009..U+000D, U+001C..U+0020, U+0085 and U+00A0 as whitespace; \<open>str.lower\<close> maps
  A..Z and U+00C0..U+00DE (without U+00D7) 32 places up.
\<close>

definition ord :: "char \<Rightarrow> nat" where
  "ord c = of_char c"

definition is_dec :: "char \<Rightarrow> bool" where
  "is_dec c = (48 \<le> ord c \<and> ord c \<le> 57)"

definition py_isdigit :: "char \<Rightarrow> bool" where
  "py_isdigit c = (is_dec c \<or> ord c = 178 \<or> ord c = 179 \<or> ord c = 185)"

definition py_isspace :: "char \<Rightarrow> bool" where
  "py_isspace c = ((9 \<le> ord c \<and> ord c \<le> 13) \<or> (28 \<le> ord c \<and> ord c \<le> 32)
                    \<or> ord c = 133 \<or> ord c = 160)"

definition py_lower :: "char \<Rightarrow> char" where
  "py_lower c = (if (65 \<le> ord c \<and> ord c \<le> 90) \<or> (192 \<le> ord c \<and> ord c \<le> 222 \<and> ord c \<noteq> 215)
                 then char_of (ord c + 32) else c)"

text \<open>\<open>int(ch)\<close> for a one-character string: \<open>None\<close> stands for the \<open>ValueError\<close>.\<close>

definition int_of_char :: "char \<Rightarrow> int option" where
  "int_of_char c = (if is_dec c then Some (int (ord c) - 48) else None)"

text \<open>\<open>str(n)\<close> for \<open>0 \<le> n \<le> 9\<close>, the only range \<open>is_valid_issn\<close> uses it on.\<close>

definition str_of_digit :: "int \<Rightarrow> string" where
  "str_of_digit n = [char_of (nat n + 48)]"

datatype py_error = ValueError | OSError

section \<open>Normalisation\<close>

text \<open>
  \<open>PUNCT_TABLE\<close>: the characters that \<open>str.translate\<close> replaces by a space.
\<close>

definition PUNCT :: "string" where
  "PUNCT = '',.;:!?/'' @ [CHR 0x27, CHR 0x22] @ ''()[]{}<>-&_=+*#@$%^''
           @ [CHR 0x60] @ ''~|''"

definition translate_punct :: "char \<Rightarrow> char" where
  "translate_punct c = (if c \<in> set PUNCT then CHR '' '' else c)"

text \<open>
  \<open>unidecode\<close> is the external transliteration library. It works character by character
  from a table; the table is a parameter \<open>tab\<close> of the model. Its contract, used as a
  hypothesis where needed: a code point below 128 is returned as it is, and every output
  character is below 128.
\<close>

definition unidecode :: "(char \<Rightarrow> string) \<Rightarrow> string \<Rightarrow> string" where
  "unidecode tab s = concat (map tab s)"

definition unidecode_contract :: "(char \<Rightarrow> string) \<Rightarrow> bool" where
  "unidecode_contract tab =
     ((\<forall>c. ord c < 128 \<longrightarrow> tab c = [c]) \<and> (\<forall>c. \<forall>d \<in> set (tab c). ord d < 128))"

text \<open>The table that drops every code point from 128 on: one table that meets the contract.\<close>

definition ascii_tab :: "char \<Rightarrow> string" where
  "ascii_tab c = (if ord c < 128 then [c] else [])"

text \<open>
  \<open>s.split()\<close>: the maximal runs of non-whitespace characters. \<open>cur\<close> is the run being
  read.
\<close>

fun split_ws :: "string \<Rightarrow> string \<Rightarrow> string list" where
  "split_ws cur [] = (if cur = [] then [] else [cur])"
| "split_ws cur (c # cs) =
     (if py_isspace c then (if cur = [] then split_ws [] cs else cur # split_ws [] cs)
      else split_ws (cur @ [c]) cs)"

definition py_split :: "string \<Rightarrow> string list" where
  "py_split s = split_ws [] s"

text \<open>\<open>sep.join(xs)\<close>.\<close>

fun py_join :: "string \<Rightarrow> string list \<Rightarrow> string" where
  "py_join sep [] = []"
| "py_join sep [x] = x"
| "py_join sep (x # y # ys) = x @ sep @ py_join sep (y # ys)"

text \<open>
  \<open>normalize_text\<close>: the argument is \<open>None\<close> or a string (\<open>s or ""\<close>).
\<close>

definition normalize_text :: "(char \<Rightarrow> string) \<Rightarrow> string option \<Rightarrow> string" where
  "normalize_text tab s =
     (let s0 = (case s of None \<Rightarrow> [] | Some x \<Rightarrow> x);
          s1 = map translate_punct (map py_lower (unidecode tab s0))
      in py_join '' '' (py_split s1))"

definition only_digits_x :: "string \<Rightarrow> string" where
  "only_digits_x s =
     map (\<lambda>ch. if ch = CHR ''x'' then CHR ''X'' else ch)
         (filter (\<lambda>ch. py_isdigit ch \<or> ch = CHR ''x'' \<or> ch = CHR ''X'') s)"

section \<open>ISBN and ISSN validation\<close>

text \<open>
  \<open>int(x) for x in d\<close>: \<open>None\<close> as soon as one conversion raises.
\<close>

fun ints_of :: "string \<Rightarrow> int list option" where
  "ints_of [] = Some []"
| "ints_of (c # cs) =
     (case int_of_char c of None \<Rightarrow> None
      | Some v \<Rightarrow> (case ints_of cs of None \<Rightarrow> None | Some vs \<Rightarrow> Some (v # vs)))"

text \<open>\<open>sum(w(i) * v for i, v in enumerate(vs))\<close>, counting from \<open>i\<close>.\<close>

fun weighted_sum :: "(nat \<Rightarrow> int) \<Rightarrow> nat \<Rightarrow> int list \<Rightarrow> int" where
  "weighted_sum w i [] = 0"
| "weighted_sum w i (v # vs) = w i * v + weighted_sum w (Suc i) vs"

definition is_valid_isbn10 :: "string \<Rightarrow> bool" where
  "is_valid_isbn10 d =
     (if length d \<noteq> 10 then False
      else case ints_of (take 9 d) of
             None \<Rightarrow> False
           | Some vs \<Rightarrow>
               (let total = weighted_sum (\<lambda>i. int i + 1) 0 vs;
                    m = total mod 11
                in (d ! 9 = CHR ''X'' \<and> m = 10)
                   \<or> (py_isdigit (d ! 9) \<and>
                       (case int_of_char (d ! 9) of None \<Rightarrow> False | Some v \<Rightarrow> v = m))))"

text \<open>
  \<open>is_valid_isbn13\<close> has no \<open>try\<close>: a character that \<open>isdigit\<close> accepts and \<open>int\<close>
  refuses raises \<open>ValueError\<close> out of the function.
\<close>

definition is_valid_isbn13 :: "string \<Rightarrow> py_error + bool" where
  "is_valid_isbn13 d =
     (if length d \<noteq> 13 \<or> \<not> list_all py_isdigit d then Inr False
      else case ints_of (take 12 d) of
             None \<Rightarrow> Inl ValueError
           | Some vs \<Rightarrow>
               (let s = weighted_sum (\<lambda>i. if i mod 2 = 0 then 1 else 3) 0 vs
                in case int_of_char (d ! 12) of
                     None \<Rightarrow> Inl ValueError
                   | Some v \<Rightarrow> Inr ((10 - (s mod 10)) mod 10 = v)))"

definition is_valid_issn :: "string \<Rightarrow> bool" where
  "is_valid_issn d0 =
     (let d = (if length d0 = 7 then CHR ''0'' # d0 else d0)
      in if length d \<noteq> 8 then False
         else case ints_of (take 7 d) of
                None \<Rightarrow> False
              | Some vs \<Rightarrow>
                  (let tot = weighted_sum (\<lambda>i. 8 - int i) 0 vs;
                       chk = (11 - (tot mod 11)) mod 11
                   in (if chk = 10 then ''X'' else str_of_digit chk) = [d ! 7]))"

text \<open>
  \<open>norm_isbn\<close> and \<open>norm_issn\<close>; the global \<open>VALIDATE\<close> is the first argument.
\<close>

definition norm_isbn :: "bool \<Rightarrow> string \<Rightarrow> py_error + string option" where
  "norm_isbn VALIDATE s =
     (let d = only_digits_x s
      in if length d = 10 then
           (if \<not> VALIDATE \<or> is_valid_isbn10 d then Inr (Some d) else Inr None)
         else if length d = 13 then
           (if \<not> VALIDATE then Inr (Some d)
            else case is_valid_isbn13 d of
                   Inl e \<Rightarrow> Inl e
                 | Inr ok \<Rightarrow> Inr (if ok then Some d else None))
         else Inr None)"

definition norm_issn :: "bool \<Rightarrow> string \<Rightarrow> string option" where
  "norm_issn VALIDATE s =
     (let d = only_digits_x s
      in if d = [] then None
         else if \<not> VALIDATE \<or> is_valid_issn d then Some d else None)"

section \<open>Bibliographic records\<close>

text \<open>
  The record codec (pymarc) is external; its objects are modelled at the interface the
  engine uses. A \<open>Field\<close> has a tag, two indicators (\<open>None\<close> on a control field), the
  ordered subfields (code, value) and the \<open>data\<close> of a control field. A \<open>Record\<close> is
  the ordered list of its fields.
\<close>

record Field =
  tag :: string
  indicator1 :: "string option"
  indicator2 :: "string option"
  subfields :: "(string \<times> string) list"
  data :: string

type_synonym Record = "Field list"

text \<open>\<open>rec.get_fields(*tags)\<close>; with no tag the call returns every field.\<close>

definition get_fields :: "string list \<Rightarrow> Record \<Rightarrow> Field list" where
  "get_fields tags r = (if tags = [] then r else filter (\<lambda>f. tag f \<in> set tags) r)"

definition get_subfields :: "string list \<Rightarrow> Field \<Rightarrow> string list" where
  "get_subfields codes f = map snd (filter (\<lambda>sf. fst sf \<in> set codes) (subfields f))"

definition add_field :: "Record \<Rightarrow> Field \<Rightarrow> Record" where
  "add_field r f = r @ [f]"

text \<open>\<open>rec.remove_field(f)\<close> is \<open>list.remove\<close>: the first field equal to \<open>f\<close> goes.\<close>

definition remove_field :: "Record \<Rightarrow> Field \<Rightarrow> Record" where
  "remove_field r f = remove1 f r"

definition py_strip :: "string \<Rightarrow> string" where
  "py_strip s = rev (dropWhile py_isspace (rev (dropWhile py_isspace s)))"

section \<open>Key extraction\<close>

definition get_local_id :: "Record \<Rightarrow> string" where
  "get_local_id r =
     (let c = (case get_fields [''999''] r of [] \<Rightarrow> [] | f # _ \<Rightarrow> get_subfields [''c''] f)
      in case c of
           v # _ \<Rightarrow> py_strip v
         | [] \<Rightarrow> (case get_fields [''001''] r of f # _ \<Rightarrow> py_strip (data f) | [] \<Rightarrow> []))"

definition extract_author :: "Record \<Rightarrow> string" where
  "extract_author r =
     (case get_fields [''100''] r of
        f # _ \<Rightarrow> py_join '' '' (get_subfields [''a'', ''b'', ''c'', ''d''] f)
      | [] \<Rightarrow>
     (case get_fields [''110''] r of
        f # _ \<Rightarrow> py_join '' '' (get_subfields [''a'', ''b'', ''c'', ''d''] f)
      | [] \<Rightarrow>
     (case get_fields [''111''] r of
        f # _ \<Rightarrow> py_join '' '' (get_subfields [''a'', ''b'', ''c'', ''d''] f)
      | [] \<Rightarrow> [])))"

definition extract_title :: "Record \<Rightarrow> string" where
  "extract_title r =
     (case get_fields [''245''] r of
        f # _ \<Rightarrow> py_join '' '' (get_subfields [''a'', ''b''] f)
      | [] \<Rightarrow> [])"

text \<open>
  The three nested loops of \<open>extract_year\<close> visit the \<open>c\<close> subfields of the 264 fields
  and then those of the 260 fields; \<open>first_year\<close> is the loop body over that sequence.
\<close>

fun first_year :: "string list \<Rightarrow> string option" where
  "first_year [] = None"
| "first_year (c # cs) =
     (let y = filter py_isdigit c
      in if length y \<ge> 4 then Some (take 4 y) else first_year cs)"

definition extract_year :: "Record \<Rightarrow> string" where
  "extract_year r =
     (case first_year (concat (map (get_subfields [''c'']) (get_fields [''264''] r))
                       @ concat (map (get_subfields [''c'']) (get_fields [''260''] r))) of
        Some y \<Rightarrow> y
      | None \<Rightarrow>
          (case get_fields [''008''] r of
             [] \<Rightarrow> []
           | f # _ \<Rightarrow>
               if length (data f) \<ge> 11 then
                 (let y = take 4 (drop 7 (data f))
                  in if y \<noteq> [] \<and> list_all py_isdigit y then y else [])
               else []))"

definition build_fuzzy_key :: "(char \<Rightarrow> string) \<Rightarrow> Record \<Rightarrow> string" where
  "build_fuzzy_key tab r =
     normalize_text tab (Some (extract_author r @ ''|'' @ extract_title r @ ''|'' @ extract_year r))"

text \<open>The loops of \<open>extract_strong_key\<close> over the candidate values, in visiting order.\<close>

fun first_isbn :: "bool \<Rightarrow> string list \<Rightarrow> py_error + string option" where
  "first_isbn VALIDATE [] = Inr None"
| "first_isbn VALIDATE (v # vs) =
     (case norm_isbn VALIDATE v of
        Inl e \<Rightarrow> Inl e
      | Inr (Some i) \<Rightarrow> Inr (Some i)
      | Inr None \<Rightarrow> first_isbn VALIDATE vs)"

fun first_issn :: "bool \<Rightarrow> string list \<Rightarrow> string option" where
  "first_issn VALIDATE [] = None"
| "first_issn VALIDATE (v # vs) =
     (case norm_issn VALIDATE v of Some i \<Rightarrow> Some i | None \<Rightarrow> first_issn VALIDATE vs)"

definition extract_strong_key :: "bool \<Rightarrow> Record \<Rightarrow> py_error + string option" where
  "extract_strong_key VALIDATE r =
     (case first_isbn VALIDATE (concat (map (get_subfields [''a'', ''z'']) (get_fields [''020''] r))) of
        Inl e \<Rightarrow> Inl e
      | Inr (Some i) \<Rightarrow> Inr (Some (''ISBN:'' @ i))
      | Inr None \<Rightarrow>
          (case first_issn VALIDATE
                  (concat (map (get_subfields [''a'', ''y'', ''z'']) (get_fields [''022''] r))) of
             Some i \<Rightarrow> Inr (Some (''ISSN:'' @ i))
           | None \<Rightarrow> Inr None))"

section \<open>Record scoring\<close>

text \<open>
  \<open>int(s)\<close> of a string: surrounding whitespace is stripped (for \<open>int\<close> that is
  U+0009..U+000D, the space, U+0085 and U+00A0, not U+001C..U+001F), a sign may lead, and
  the decimal digits may be separated by single underscores. \<open>None\<close> is the
  \<open>ValueError\<close>.
\<close>

fun int_literal :: "nat \<Rightarrow> bool \<Rightarrow> string \<Rightarrow> nat option" where
  "int_literal acc ok [] = (if ok then Some acc else None)"
| "int_literal acc ok (c # cs) =
     (if is_dec c then int_literal (10 * acc + (ord c - 48)) True cs
      else if c = CHR ''_'' \<and> ok then int_literal acc False cs
      else None)"

definition int_isspace :: "char \<Rightarrow> bool" where
  "int_isspace c = ((9 \<le> ord c \<and> ord c \<le> 13) \<or> ord c = 32 \<or> ord c = 133 \<or> ord c = 160)"

definition py_int :: "string \<Rightarrow> int option" where
  "py_int s =
     (case rev (dropWhile int_isspace (rev (dropWhile int_isspace s))) of
        [] \<Rightarrow> None
      | c # cs \<Rightarrow>
          if c = CHR ''-'' then map_option (\<lambda>n. - int n) (int_literal 0 False cs)
          else if c = CHR ''+'' then map_option int (int_literal 0 False cs)
          else map_option int (int_literal 0 False (c # cs)))"

text \<open>
  The six regular expressions of \<open>AUTH_PATTERNS\<close>, compiled with \<open>re.I\<close> and applied
  with \<open>match\<close>. \<open>ci_prefix\<close> reads a literal prefix without regard to case and returns
  the rest; \<open>at_end\<close> is the \<open>$\<close> anchor, which also holds before one final newline.
\<close>

definition ci_prefix :: "string \<Rightarrow> string \<Rightarrow> string option" where
  "ci_prefix p s =
     (if length p \<le> length s \<and> map py_lower (take (length p) s) = p
      then Some (drop (length p) s) else None)"

definition at_end :: "(string \<Rightarrow> bool) \<Rightarrow> string \<Rightarrow> bool" where
  "at_end P s = (P s \<or> (s \<noteq> [] \<and> last s = CHR 0x0A \<and> P (butlast s)))"

definition opt_colon_spaces :: "string \<Rightarrow> string" where
  "opt_colon_spaces s =
     dropWhile (\<lambda>c. c = CHR '' '')
       (case s of [] \<Rightarrow> [] | c # cs \<Rightarrow> if c = CHR '':'' then cs else c # cs)"

definition digits1 :: "string \<Rightarrow> bool" where
  "digits1 s = (s \<noteq> [] \<and> list_all is_dec s)"

definition pat_viaf :: "string \<Rightarrow> bool" where
  "pat_viaf = at_end (\<lambda>s.
     (case ci_prefix ''viaf'' s of None \<Rightarrow> False | Some r \<Rightarrow> digits1 (opt_colon_spaces r))
     \<or> (length s = 8 \<and> list_all is_dec s))"

definition pat_isni :: "string \<Rightarrow> bool" where
  "pat_isni = at_end (\<lambda>s.
     case ci_prefix ''isni'' s of
       None \<Rightarrow> False
     | Some r \<Rightarrow>
         (let t = opt_colon_spaces r
          in length t = 16 \<and> list_all is_dec (take 15 t)
             \<and> (is_dec (t ! 15) \<or> t ! 15 = CHR ''x'' \<or> t ! 15 = CHR ''X'')))"

definition pat_wd :: "string \<Rightarrow> bool" where
  "pat_wd = at_end (\<lambda>s.
     (case ci_prefix ''wd:q'' s of None \<Rightarrow> False | Some r \<Rightarrow> digits1 r)
     \<or> (case ci_prefix ''wikidata:q'' s of None \<Rightarrow> False | Some r \<Rightarrow> digits1 r))"

definition pat_prefixed :: "string \<Rightarrow> string \<Rightarrow> bool" where
  "pat_prefixed p = at_end (\<lambda>s.
     case ci_prefix p s of None \<Rightarrow> False | Some r \<Rightarrow> r \<noteq> [] \<and> CHR 0x0A \<notin> set r)"

datatype auth = VVIAF | ISNI | WD | BNE | LEMAC | CANTIC | OTHER

definition AUTH_PATTERNS :: "(auth \<times> (string \<Rightarrow> bool)) list" where
  "AUTH_PATTERNS =
     [(VVIAF, pat_viaf), (ISNI, pat_isni), (WD, pat_wd), (BNE, pat_prefixed ''bne:''),
      (LEMAC, pat_prefixed ''lemac:''), (CANTIC, pat_prefixed ''cantic:'')]"

fun AUTH_SCORES :: "auth \<Rightarrow> int" where
  "AUTH_SCORES VVIAF = 6"
| "AUTH_SCORES ISNI = 6"
| "AUTH_SCORES WD = 5"
| "AUTH_SCORES BNE = 4"
| "AUTH_SCORES LEMAC = 4"
| "AUTH_SCORES CANTIC = 4"
| "AUTH_SCORES OTHER = 2"

definition score_subfield9 :: "string \<Rightarrow> int" where
  "score_subfield9 v =
     (let v2 = py_strip (map py_lower v)
      in case find (\<lambda>np. snd np v2) AUTH_PATTERNS of
           Some np \<Rightarrow> AUTH_SCORES (fst np)
         | None \<Rightarrow> AUTH_SCORES OTHER)"

definition score_authorities :: "Record \<Rightarrow> int" where
  "score_authorities r =
     sum_list (map (\<lambda>f.
        case py_int (tag f) of
          None \<Rightarrow> 0
        | Some t \<Rightarrow>
            if (100 \<le> t \<and> t \<le> 111) \<or> (600 \<le> t \<and> t \<le> 699) \<or> (700 \<le> t \<and> t \<le> 799)
            then sum_list (map score_subfield9 (get_subfields [''9''] f))
            else 0) r)"

text \<open>\<open>x not in (" ", "", None)\<close> for an indicator.\<close>

definition indicator_set :: "string option \<Rightarrow> bool" where
  "indicator_set x = (case x of None \<Rightarrow> False | Some i \<Rightarrow> i \<noteq> '' '' \<and> i \<noteq> [])"

definition score_record :: "Record \<Rightarrow> int" where
  "score_record r =
     (if get_fields [''245''] r \<noteq> [] then 15 else 0)
   + (if get_fields [''260''] r \<noteq> [] \<or> get_fields [''264''] r \<noteq> [] then 10 else 0)
   + (if get_fields [''100''] r \<noteq> [] \<or> get_fields [''110''] r \<noteq> []
         \<or> get_fields [''111''] r \<noteq> [] then 8 else 0)
   + (if get_fields [''020''] r \<noteq> [] then 12 else 0)
   + (if get_fields [''022''] r \<noteq> [] then 10 else 0)
   + (if get_fields [''300''] r \<noteq> [] then 4 else 0)
   + (case get_fields [''008''] r of [] \<Rightarrow> 0 | f # _ \<Rightarrow> if length (data f) \<ge> 40 then 15 else 0)
   + sum_list (map (\<lambda>f. (if indicator_set (indicator1 f) then 1 else 0)
                        + (if indicator_set (indicator2 f) then 1 else 0)) r)
   + score_authorities r"

section \<open>Internal structures\<close>

record SourceRecord =
  lib :: string
  local_id :: string
  sr_record :: Record
  strong_key :: "string option"
  fuzzy_key :: "string option"

record Cluster =
  cid :: nat
  members :: "SourceRecord list"
  strong_keys :: "string set"
  fuzzy_keys :: "string set"

text \<open>
  The state of one clustering run. A Python \<open>dict\<close> keeps its keys in insertion order and
  an assignment to a key already there keeps the key's place: an association list with
  \<open>dict_set\<close>. The indices hold references to cluster objects; the model holds the
  cluster's \<open>id\<close>, which is unique because ids are handed out by the \<open>next_id\<close> counter.
\<close>

record state =
  clusters :: "Cluster list"
  strong_index :: "(string \<times> nat) list"
  fuzzy_index :: "(string \<times> nat) list"
  next_id :: nat

fun dict_set :: "'k \<Rightarrow> 'v \<Rightarrow> ('k \<times> 'v) list \<Rightarrow> ('k \<times> 'v) list" where
  "dict_set k v [] = [(k, v)]"
| "dict_set k v (p # ps) = (if fst p = k then (k, v) # ps else p # dict_set k v ps)"

definition init_state :: state where
  "init_state = \<lparr>clusters = [], strong_index = [], fuzzy_index = [], next_id = 1\<rparr>"

text \<open>
  The external collaborators of a run: the transliteration table of \<open>unidecode\<close>, the
  similarity \<open>fuzz.token_sort_ratio\<close> of rapidfuzz (a float, modelled as a rational), the
  files (\<open>None\<close> when the path cannot be opened; the reader yields \<open>None\<close> for a record it
  cannot decode), and the order in which a Python \<open>set\<close> holding the added strings
  iterates (it depends on the hash seed of the process).
\<close>

record world =
  unidecode_tab :: "char \<Rightarrow> string"
  token_sort_ratio :: "string \<Rightarrow> string \<Rightarrow> rat"
  files :: "string \<Rightarrow> Record option list option"
  set_order :: "string list \<Rightarrow> string list"

section \<open>Primary selection and merge\<close>

fun find_pref :: "string list \<Rightarrow> nat list \<Rightarrow> SourceRecord list \<Rightarrow> nat option" where
  "find_pref [] best ms = None"
| "find_pref (l # ls) best ms =
     (case find (\<lambda>i. lib (ms ! i) = l) best of
        Some i \<Rightarrow> Some i
      | None \<Rightarrow> find_pref ls best ms)"

text \<open>
  \<open>choose_primary\<close> returns one of the member objects; the model returns its position
  in the member list, which is what tells the object apart from an equal one.
  \<open>max\<close> of no scores raises \<open>ValueError\<close>.
\<close>

definition choose_primary :: "SourceRecord list \<Rightarrow> string list \<Rightarrow> py_error + nat" where
  "choose_primary ms pref =
     (case map (\<lambda>m. score_record (sr_record m)) ms of
        [] \<Rightarrow> Inl ValueError
      | s0 # ss \<Rightarrow>
          (let scored = s0 # ss;
               maxsc = fold max ss s0;
               best = filter (\<lambda>i. scored ! i = maxsc) [0..<length ms]
           in case find_pref pref best ms of
                Some i \<Rightarrow> Inr i
              | None \<Rightarrow> (case best of i # _ \<Rightarrow> Inr i | [] \<Rightarrow> Inl ValueError)))"

text \<open>\<open>str(n)\<close> for a natural number.\<close>

function str_of_nat :: "nat \<Rightarrow> string" where
  "str_of_nat n =
     (if n < 10 then [char_of (n + 48)]
      else str_of_nat (n div 10) @ [char_of (n mod 10 + 48)])"
  by pat_completeness auto
termination
  by (relation "measure id") auto

declare str_of_nat.simps [simp del]

text \<open>
  The constructor of \<open>Field\<close> normalises the tag: a tag that \<open>int\<close> reads is
  written with three digits (\<open>"%03i"\<close>), another one is padded with spaces to three
  characters. The tag of a field that exists is in this form already.
\<close>

definition pad_left :: "char \<Rightarrow> nat \<Rightarrow> string \<Rightarrow> string" where
  "pad_left ch n s = replicate (n - length s) ch @ s"

definition pymarc_tag :: "string \<Rightarrow> string" where
  "pymarc_tag t =
     (case py_int t of
        Some n \<Rightarrow>
          if n < 0 then CHR ''-'' # pad_left CHR ''0'' 2 (str_of_nat (nat (- n)))
          else pad_left CHR ''0'' 3 (str_of_nat (nat n))
      | None \<Rightarrow> pad_left CHR '' '' 3 t)"

text \<open>
  A field built by the merger: \<open>Field(tag, indicators, subfields)\<close>, with no \<open>data\<close>.
\<close>

definition new_field :: "string \<Rightarrow> (string \<times> string) list \<Rightarrow> Field" where
  "new_field t subs =
     \<lparr>tag = pymarc_tag t, indicator1 = Some '' '', indicator2 = Some '' '', subfields = subs,
      data = []\<rparr>"

definition copy_field :: "Field \<Rightarrow> Field" where
  "copy_field f =
     \<lparr>tag = pymarc_tag (tag f), indicator1 = indicator1 f, indicator2 = indicator2 f,
      subfields = subfields f, data = []\<rparr>"

text \<open>
  The merge works on objects: \<open>rec = primary.record\<close> is the record object of one of
  the members, and \<open>add_field\<close> and \<open>remove_field\<close> change it in place. The store of the
  model is the list \<open>recs\<close> of the members' record objects, \<open>p\<close> the position of the
  primary; every change goes to \<open>recs ! p\<close> and every read of a member sees it.
\<close>

definition annotate :: "string \<Rightarrow> string \<Rightarrow> nat \<Rightarrow> SourceRecord \<Rightarrow> Record list \<Rightarrow> Record list" where
  "annotate prov_tag hold_tag p sr recs =
     (let lid = local_id sr;
          r1 = add_field (recs ! p) (new_field prov_tag [(''a'', ''('' @ lib sr @ '')'' @ lid)]);
          subs = [(''a'', lib sr)] @ (if lid \<noteq> [] then [(''b'', lid)] else []);
          r2 = add_field r1 (new_field hold_tag subs)
      in recs[p := r2])"

definition donate :: "nat \<Rightarrow> string \<Rightarrow> Record list \<Rightarrow> Record list" where
  "donate p t0 recs =
     (let t = py_strip t0
      in if t = [] then recs
         else case find (\<lambda>i. get_fields [t] (recs ! i) \<noteq> []) [0..<length recs] of
                None \<Rightarrow> recs
              | Some b \<Rightarrow>
                  (let recs1 = recs[p := fold (\<lambda>f r. remove_field r f) (get_fields [t] (recs ! p)) (recs ! p)];
                       donor = get_fields [t] (recs1 ! b)
                   in recs1[p := fold (\<lambda>f r. add_field r (copy_field f)) donor (recs1 ! p)]))"

definition merge_cluster ::
  "world \<Rightarrow> Cluster \<Rightarrow> string list \<Rightarrow> string list \<Rightarrow> string \<Rightarrow> string \<Rightarrow> string \<Rightarrow> bool
     \<Rightarrow> py_error + Record" where
  "merge_cluster w cluster pref pref_fields prov_tag hold_tag merge_tag keep9 =
     (case choose_primary (members cluster) pref of
        Inl e \<Rightarrow> Inl e
      | Inr p \<Rightarrow>
          (let recs0 = map sr_record (members cluster);
               recs1 = fold (annotate prov_tag hold_tag p) (members cluster) recs0;
               recs2 = fold (donate p) pref_fields recs1;
               libs = set_order w (map lib (members cluster));
               texto = ''Registro colectivo de '' @ str_of_nat (length (members cluster))
                       @ '' registros. Bibliotecas: '' @ py_join '', '' (sort libs)
           in Inr (add_field (recs2 ! p) (new_field merge_tag [(''a'', texto)]))))"

section \<open>Reading and clustering\<close>

text \<open>\<open>os.path.splitext(path)[1]\<close> on a POSIX path.\<close>

definition splitext_ext :: "string \<Rightarrow> string" where
  "splitext_ext path =
     (let name = rev (takeWhile (\<lambda>c. c \<noteq> CHR ''/'') (rev path))
      in if CHR ''.'' \<in> set name then
           (let e = CHR ''.'' # rev (takeWhile (\<lambda>c. c \<noteq> CHR ''.'') (rev name));
                stem = take (length name - length e) name
            in if list_all (\<lambda>c. c = CHR ''.'') stem then [] else e)
         else [])"

definition iter_records_mrc :: "world \<Rightarrow> string \<Rightarrow> py_error + Record list" where
  "iter_records_mrc w path =
     (if map py_lower (splitext_ext path) \<notin> set [''.mrc'', ''.marc'', ''.dat'', ''.iso2709'']
      then Inl ValueError
      else case files w path of
             None \<Rightarrow> Inl OSError
           | Some rs \<Rightarrow> Inr (List.map_filter (\<lambda>r. r) rs))"

text \<open>A string that is present and not empty (\<open>if sk\<close>, \<open>if fk\<close>).\<close>

definition truthy :: "string option \<Rightarrow> bool" where
  "truthy k = (case k of None \<Rightarrow> False | Some s \<Rightarrow> s \<noteq> [])"

text \<open>
  The scan of the fuzzy index, in the order of the index, from \<open>best_sc = 0\<close> and
  \<open>best_cluster = None\<close>.
\<close>

fun fuzzy_scan ::
  "(string \<Rightarrow> string \<Rightarrow> rat) \<Rightarrow> string \<Rightarrow> (string \<times> nat) list \<Rightarrow> rat \<times> nat option
     \<Rightarrow> rat \<times> nat option" where
  "fuzzy_scan ratio fk [] best = best"
| "fuzzy_scan ratio fk (kc # rest) best =
     (let sc = ratio fk (fst kc)
      in if sc > fst best then fuzzy_scan ratio fk rest (sc, Some (snd kc))
         else fuzzy_scan ratio fk rest best)"

text \<open>\<open>if sk and sk in strong_index: cl = strong_index[sk]\<close>.\<close>

definition strong_lookup :: "state \<Rightarrow> string option \<Rightarrow> nat option" where
  "strong_lookup st sk =
     (case sk of None \<Rightarrow> None | Some s \<Rightarrow> if s = [] then None else map_of (strong_index st) s)"

definition find_cluster ::
  "(string \<Rightarrow> string \<Rightarrow> rat) \<Rightarrow> int \<Rightarrow> bool \<Rightarrow> bool \<Rightarrow> state \<Rightarrow> string option \<Rightarrow> string option
     \<Rightarrow> nat option" where
  "find_cluster ratio weak use_fuzzy only_strong st sk fk =
     (case strong_lookup st sk of
        Some c \<Rightarrow> Some c
      | None \<Rightarrow>
          if use_fuzzy \<and> \<not> only_strong \<and> truthy fk then
            (let best = fuzzy_scan ratio (case fk of Some s \<Rightarrow> s | None \<Rightarrow> []) (fuzzy_index st) (0, None)
             in case snd best of
                  None \<Rightarrow> None
                | Some c \<Rightarrow> if fst best \<ge> of_int weak then Some c else None)
          else None)"

definition upd_cluster :: "nat \<Rightarrow> (Cluster \<Rightarrow> Cluster) \<Rightarrow> Cluster list \<Rightarrow> Cluster list" where
  "upd_cluster c f cs = map (\<lambda>k. if cid k = c then f k else k) cs"

text \<open>The body of the loop of \<open>build_clusters\<close> from \<open>cl = None\<close> on.\<close>

definition add_record ::
  "(string \<Rightarrow> string \<Rightarrow> rat) \<Rightarrow> int \<Rightarrow> bool \<Rightarrow> bool \<Rightarrow> state \<Rightarrow> SourceRecord \<Rightarrow> state" where
  "add_record ratio weak use_fuzzy only_strong st sr =
     (let sk = strong_key sr;
          fk = fuzzy_key sr;
          cl = find_cluster ratio weak use_fuzzy only_strong st sk fk;
          c = (case cl of Some c \<Rightarrow> c | None \<Rightarrow> next_id st);
          st1 = (case cl of
                   Some _ \<Rightarrow> st
                 | None \<Rightarrow> st\<lparr>clusters := clusters st
                                   @ [\<lparr>cid = next_id st, members = [], strong_keys = {}, fuzzy_keys = {}\<rparr>],
                              next_id := next_id st + 1\<rparr>);
          st2 = st1\<lparr>clusters := upd_cluster c (\<lambda>k. k\<lparr>members := members k @ [sr]\<rparr>) (clusters st1)\<rparr>;
          st3 = (case sk of
                   None \<Rightarrow> st2
                 | Some s \<Rightarrow>
                     if s = [] then st2
                     else st2\<lparr>strong_index := dict_set s c (strong_index st2),
                              clusters := upd_cluster c (\<lambda>k. k\<lparr>strong_keys := insert s (strong_keys k)\<rparr>)
                                            (clusters st2)\<rparr>);
          st4 = (case fk of
                   None \<Rightarrow> st3
                 | Some s \<Rightarrow>
                     if s = [] then st3
                     else st3\<lparr>fuzzy_index := dict_set s c (fuzzy_index st3),
                              clusters := upd_cluster c (\<lambda>k. k\<lparr>fuzzy_keys := insert s (fuzzy_keys k)\<rparr>)
                                            (clusters st3)\<rparr>)
      in st4)"

definition make_source_record ::
  "world \<Rightarrow> bool \<Rightarrow> string \<Rightarrow> Record \<Rightarrow> string option \<Rightarrow> SourceRecord" where
  "make_source_record w use_fuzzy l r sk =
     \<lparr>lib = l, local_id = get_local_id r, sr_record = r, strong_key = sk,
      fuzzy_key = (if use_fuzzy then Some (build_fuzzy_key (unidecode_tab w) r) else None)\<rparr>"

fun process_records ::
  "world \<Rightarrow> bool \<Rightarrow> int \<Rightarrow> bool \<Rightarrow> bool \<Rightarrow> string \<Rightarrow> state \<Rightarrow> Record list \<Rightarrow> py_error + state" where
  "process_records w VALIDATE weak use_fuzzy only_strong l st [] = Inr st"
| "process_records w VALIDATE weak use_fuzzy only_strong l st (r # rs) =
     (case extract_strong_key VALIDATE r of
        Inl e \<Rightarrow> Inl e
      | Inr sk \<Rightarrow>
          process_records w VALIDATE weak use_fuzzy only_strong l
            (add_record (token_sort_ratio w) weak use_fuzzy only_strong st
               (make_source_record w use_fuzzy l r sk)) rs)"

fun process_sources ::
  "world \<Rightarrow> bool \<Rightarrow> int \<Rightarrow> bool \<Rightarrow> bool \<Rightarrow> state \<Rightarrow> (string \<times> string) list \<Rightarrow> py_error + state" where
  "process_sources w VALIDATE weak use_fuzzy only_strong st [] = Inr st"
| "process_sources w VALIDATE weak use_fuzzy only_strong st (lp # rest) =
     (case iter_records_mrc w (snd lp) of
        Inl e \<Rightarrow> Inl e
      | Inr rs \<Rightarrow>
          (case process_records w VALIDATE weak use_fuzzy only_strong (fst lp) st rs of
             Inl e \<Rightarrow> Inl e
           | Inr st' \<Rightarrow> process_sources w VALIDATE weak use_fuzzy only_strong st' rest))"

definition build_clusters ::
  "world \<Rightarrow> bool \<Rightarrow> (string \<times> string) list \<Rightarrow> int \<Rightarrow> bool \<Rightarrow> bool \<Rightarrow> py_error + Cluster list" where
  "build_clusters w VALIDATE sources weak use_fuzzy only_strong =
     (case process_sources w VALIDATE weak use_fuzzy only_strong init_state sources of
        Inl e \<Rightarrow> Inl e
      | Inr st \<Rightarrow> Inr (clusters st))"

section \<open>Output and main\<close>

text \<open>\<open>write_union\<close>: the merged records handed to the writer, in cluster order.\<close>

fun write_union ::
  "world \<Rightarrow> Cluster list \<Rightarrow> string list \<Rightarrow> string list \<Rightarrow> string \<Rightarrow> string \<Rightarrow> string \<Rightarrow> bool
     \<Rightarrow> py_error + Record list" where
  "write_union w [] pref pref_fields prov hold mrg keep9 = Inr []"
| "write_union w (cl # cls) pref pref_fields prov hold mrg keep9 =
     (case merge_cluster w cl pref pref_fields prov hold mrg keep9 of
        Inl e \<Rightarrow> Inl e
      | Inr r \<Rightarrow>
          (case write_union w cls pref pref_fields prov hold mrg keep9 of
             Inl e \<Rightarrow> Inl e
           | Inr rs \<Rightarrow> Inr (r # rs)))"

text \<open>The parsed command line (\<open>a = p.parse_args(argv)\<close>), without the output paths.\<close>

record args =
  a_src :: "string list"
  a_prefer :: string
  a_prefer_fields :: string
  a_provenance_tag :: string
  a_holdings_tag :: string
  a_merge_note_tag :: string
  a_keep_9xx :: bool
  a_no_fuzzy :: bool
  a_weak_threshold :: int
  a_strong_only :: bool
  a_no_checksum :: bool

text \<open>\<open>s.split(sep)\<close> for a one-character separator.\<close>

fun split_on :: "char \<Rightarrow> string \<Rightarrow> string \<Rightarrow> string list" where
  "split_on sep cur [] = [cur]"
| "split_on sep cur (c # cs) =
     (if c = sep then cur # split_on sep [] cs else split_on sep (cur @ [c]) cs)"

definition comma_list :: "string \<Rightarrow> string list" where
  "comma_list s = filter (\<lambda>x. x \<noteq> []) (map py_strip (split_on CHR '','' [] s))"

text \<open>The loop over \<open>a.src\<close> in \<open>main\<close>.\<close>

fun parse_sources :: "string list \<Rightarrow> (string \<times> string) list" where
  "parse_sources [] = []"
| "parse_sources (s # rest) =
     (if CHR ''='' \<notin> set s then parse_sources rest
      else (py_strip (takeWhile (\<lambda>c. c \<noteq> CHR ''='') s),
            py_strip (drop 1 (dropWhile (\<lambda>c. c \<noteq> CHR ''='') s))) # parse_sources rest)"

text \<open>
  \<open>main\<close>: the clusters and the merged records written, or the exception that ends the
  run.
\<close>

definition main :: "world \<Rightarrow> args \<Rightarrow> py_error + (Cluster list \<times> Record list)" where
  "main w a =
     (let VALIDATE = \<not> a_no_checksum a;
          sources = parse_sources (a_src a);
          pref = comma_list (a_prefer a);
          pref_fields = comma_list (a_prefer_fields a)
      in case build_clusters w VALIDATE sources (a_weak_threshold a) (\<not> a_no_fuzzy a) (a_strong_only a) of
           Inl e \<Rightarrow> Inl e
         | Inr cls \<Rightarrow>
             (case write_union w cls pref pref_fields (a_provenance_tag a) (a_holdings_tag a)
                     (a_merge_note_tag a) (a_keep_9xx a) of
                Inl e \<Rightarrow> Inl e
              | Inr rs \<Rightarrow> Inr (cls, rs)))"

section \<open>Auxiliary notions for the proofs\<close>

text \<open>
  A character that normalisation leaves alone: below 128, fixed by \<open>str.lower\<close> and not
  in the punctuation table.
\<close>

definition settled :: "char \<Rightarrow> bool" where
  "settled c = (ord c < 128 \<and> py_lower c = c \<and> translate_punct c = c)"

text \<open>The member list of the cluster with id \<open>c\<close> (empty when there is none).\<close>

definition members_of :: "state \<Rightarrow> nat \<Rightarrow> SourceRecord list" where
  "members_of st c = concat (map members (filter (\<lambda>k. cid k = c) (clusters st)))"

text \<open>
  What every state of a run satisfies: cluster ids are distinct and below the counter,
  and the indices point to clusters of the list.
\<close>

definition wf_state :: "state \<Rightarrow> bool" where
  "wf_state st =
     (distinct (map cid (clusters st))
      \<and> list_all (\<lambda>k. cid k < next_id st) (clusters st)
      \<and> list_all (\<lambda>kc. snd kc \<in> set (map cid (clusters st))) (strong_index st)
      \<and> list_all (\<lambda>kc. snd kc \<in> set (map cid (clusters st))) (fuzzy_index st))"

text \<open>
  The cluster that the loop body gives a record: the one found, or the new one, which
  gets the id \<open>next_id\<close>. \<open>cm\<close> is the list of clusters as pairs of id and members.
\<close>

definition target :: "(string \<Rightarrow> string \<Rightarrow> rat) \<Rightarrow> int \<Rightarrow> bool \<Rightarrow> bool \<Rightarrow> state \<Rightarrow> SourceRecord \<Rightarrow> nat" where
  "target ratio weak uf so st sr =
     (case find_cluster ratio weak uf so st (strong_key sr) (fuzzy_key sr) of Some c \<Rightarrow> c | None \<Rightarrow> next_id st)"

definition cm :: "state \<Rightarrow> (nat \<times> SourceRecord list) list" where
  "cm st = map (\<lambda>k. (cid k, members k)) (clusters st)"

text \<open>
  A cluster id that no index points to and that the counter has passed: no later record
  can be given this cluster.
\<close>

definition sealed :: "state \<Rightarrow> nat \<Rightarrow> bool" where
  "sealed st n = (n < next_id st \<and> n \<notin> snd ` set (strong_index st) \<and> n \<notin> snd ` set (fuzzy_index st))"

text \<open>The records of a stream, one after the other, through the loop body.\<close>

definition add_records ::
  "(string \<Rightarrow> string \<Rightarrow> rat) \<Rightarrow> int \<Rightarrow> bool \<Rightarrow> bool \<Rightarrow> state \<Rightarrow> SourceRecord list \<Rightarrow> state" where
  "add_records ratio weak use_fuzzy only_strong st srs =
     fold (\<lambda>sr s. add_record ratio weak use_fuzzy only_strong s sr) srs st"

text \<open>
  The source records of a run in reading order: what the loops of \<open>build_clusters\<close>
  hand to the loop body, or the first exception of the reading.
\<close>

fun read_records :: "world \<Rightarrow> bool \<Rightarrow> bool \<Rightarrow> string \<Rightarrow> Record list \<Rightarrow> py_error + SourceRecord list" where
  "read_records w V uf l [] = Inr []"
| "read_records w V uf l (r # rs) =
     (case extract_strong_key V r of
        Inl e \<Rightarrow> Inl e
      | Inr sk \<Rightarrow>
          (case read_records w V uf l rs of
             Inl e \<Rightarrow> Inl e
           | Inr srs \<Rightarrow> Inr (make_source_record w uf l r sk # srs)))"

fun source_records :: "world \<Rightarrow> bool \<Rightarrow> bool \<Rightarrow> (string \<times> string) list \<Rightarrow> py_error + SourceRecord list" where
  "source_records w V uf [] = Inr []"
| "source_records w V uf (lp # rest) =
     (case iter_records_mrc w (snd lp) of
        Inl e \<Rightarrow> Inl e
      | Inr rs \<Rightarrow>
          (case read_records w V uf (fst lp) rs of
             Inl e \<Rightarrow> Inl e
           | Inr xs \<Rightarrow>
               (case source_records w V uf rest of
                  Inl e \<Rightarrow> Inl e
                | Inr ys \<Rightarrow> Inr (xs @ ys))))"

text \<open>
  The fuzzy pass in the words of the specification: the greatest similarity between
  \<open>fk\<close> and a key of the index, and the cluster of the first key that reaches it.
\<close>

definition max_similarity :: "(string \<Rightarrow> string \<Rightarrow> rat) \<Rightarrow> string \<Rightarrow> (string \<times> nat) list \<Rightarrow> rat" where
  "max_similarity ratio fk idx = Max (set (map (\<lambda>kc. ratio fk (fst kc)) idx))"

definition first_best_cluster ::
  "(string \<Rightarrow> string \<Rightarrow> rat) \<Rightarrow> string \<Rightarrow> (string \<times> nat) list \<Rightarrow> nat option" where
  "first_best_cluster ratio fk idx =
     map_option snd (find (\<lambda>kc. ratio fk (fst kc) = max_similarity ratio fk idx) idx)"

text \<open>The identifier candidates that \<open>extract_strong_key\<close> visits.\<close>

definition isbn_candidates :: "Record \<Rightarrow> string list" where
  "isbn_candidates r = concat (map (get_subfields [''a'', ''z'']) (get_fields [''020''] r))"

definition issn_candidates :: "Record \<Rightarrow> string list" where
  "issn_candidates r = concat (map (get_subfields [''a'', ''y'', ''z'']) (get_fields [''022''] r))"


text \<open>
  A set iterates its elements once each, in some order.
\<close>

definition set_order_contract :: "(string list \<Rightarrow> string list) \<Rightarrow> bool" where
  "set_order_contract f = (\<forall>xs. distinct (f xs) \<and> set (f xs) = set xs)"

text \<open>The clusters of a finished run as lists of source labels.\<close>

definition cluster_libs ::
  "py_error + (Cluster list \<times> Record list) \<Rightarrow> py_error + string list list" where
  "cluster_libs res = map_sum id (\<lambda>p. map (\<lambda>c. map lib (members c)) (fst p)) res"

definition has_eq :: "string \<Rightarrow> bool" where
  "has_eq s = (CHR ''='' \<in> set s)"

section \<open>Example inputs\<close>

definition ex_ratio :: "string \<Rightarrow> string \<Rightarrow> rat" where
  "ex_ratio a b = (if a = b then 100 else 0)"

definition ex_title :: "string \<Rightarrow> Field" where
  "ex_title t =
     \<lparr>tag = ''245'', indicator1 = Some ''1'', indicator2 = Some ''0'',
      subfields = [(''a'', t)], data = []\<rparr>"

definition ex_author :: "string \<Rightarrow> Field" where
  "ex_author t =
     \<lparr>tag = ''100'', indicator1 = Some ''1'', indicator2 = Some '' '',
      subfields = [(''a'', t)], data = []\<rparr>"

definition ex_world :: world where
  "ex_world =
     \<lparr>unidecode_tab = ascii_tab, token_sort_ratio = ex_ratio,
      files = (\<lambda>p. if p = ''b.mrc'' then Some [Some [ex_title ''Uno'']] else None),
      set_order = remdups\<rparr>"

definition ex_member :: "string \<Rightarrow> string \<Rightarrow> Record \<Rightarrow> SourceRecord" where
  "ex_member l i r =
     \<lparr>lib = l, local_id = i, sr_record = r, strong_key = None,
      fuzzy_key = Some (build_fuzzy_key ascii_tab r)\<rparr>"

definition ex_single :: Cluster where
  "ex_single =
     \<lparr>cid = 1, members = [ex_member ''LIB1'' ''A1'' [ex_title ''Uno'']],
      strong_keys = {}, fuzzy_keys = {''uno''}\<rparr>"

definition ex_pair :: Cluster where
  "ex_pair =
     \<lparr>cid = 1,
      members = [ex_member ''LIB1'' ''A1'' [ex_title ''Corto''],
                 ex_member ''LIB2'' ''B7'' [ex_author ''Ana'', ex_title ''Largo'']],
      strong_keys = {}, fuzzy_keys = {}\<rparr>"

definition ex_args :: args where
  "ex_args =
     \<lparr>a_src = [''LIB1'', ''LIB2=b.mrc''], a_prefer = [], a_prefer_fields = ''245,260,264'',
      a_provenance_tag = ''035'', a_holdings_tag = ''910'', a_merge_note_tag = ''948'',
      a_keep_9xx = False, a_no_fuzzy = False, a_weak_threshold = 92, a_strong_only = False,
      a_no_checksum = False\<rparr>"

definition ex_state :: state where
  "ex_state = add_record ex_ratio 0 True False init_state (ex_member ''LIB1'' ''A1'' [ex_title ''a''])"

definition ex_b :: SourceRecord where
  "ex_b = ex_member ''LIB2'' ''B1'' [ex_title ''b'']"

definition ex_a2 :: SourceRecord where
  "ex_a2 = ex_member ''LIB2'' ''B2'' [ex_title ''a'']"

definition ex_blank :: Record where
  "ex_blank =
     [\<lparr>tag = ''020'', indicator1 = Some '' '', indicator2 = Some '' '',
        subfields = [(''a'', ''123'')], data = []\<rparr>,
      ex_title ''...'']"


definition ex_rec :: "string \<Rightarrow> string \<Rightarrow> Record" where
  "ex_rec i t =
     [\<lparr>tag = ''001'', indicator1 = None, indicator2 = None, subfields = [], data = i\<rparr>,
      ex_title t]"



text \<open>
  A record whose only identifier candidate has thirteen characters that \<open>isdigit\<close>
  accepts, the last one the superscript two (U+00B2).
\<close>

definition ex_sup_isbn :: string where
  "ex_sup_isbn = ''978030640615'' @ [CHR 0xB2]"

definition ex_sup_rec :: Record where
  "ex_sup_rec =
     [\<lparr>tag = ''020'', indicator1 = Some '' '', indicator2 = Some '' '',
        subfields = [(''a'', ex_sup_isbn)], data = []\<rparr>]"

definition ex_sup_world :: world where
  "ex_sup_world =
     \<lparr>unidecode_tab = ascii_tab, token_sort_ratio = ex_ratio,
      files = (\<lambda>p. if p = ''s.mrc'' then Some [Some ex_sup_rec] else None),
      set_order = remdups\<rparr>"

definition ex_two_world :: world where
  "ex_two_world =
     \<lparr>unidecode_tab = ascii_tab, token_sort_ratio = ex_ratio,
      files = (\<lambda>p. if p = ''a.mrc'' then Some [Some (ex_rec ''A1'' ''Uno'')]
                   else if p = ''b.mrc'' then Some [Some (ex_rec ''B7'' ''Uno'')]
                   else None),
      set_order = remdups\<rparr>"

definition ex_two_args :: args where
  "ex_two_args = ex_args\<lparr>a_src := [''LIB2=b.mrc'', ''LIB1=a.mrc'']\<rparr>"

text \<open>The texts of the merge notes of a finished run.\<close>

definition merge_notes ::
  "py_error + (Cluster list \<times> Record list) \<Rightarrow> py_error + string list list" where
  "merge_notes res = map_sum id (\<lambda>p. map (\<lambda>r. concat (map (get_subfields [''a'']) (get_fields [''948''] r))) (snd p)) res"

definition ex_blank_world :: world where
  "ex_blank_world =
     \<lparr>unidecode_tab = ascii_tab, token_sort_ratio = ex_ratio,
      files = (\<lambda>p. if p = ''k.mrc'' then Some [Some (ex_rec ''A'' ''a''), Some ex_blank, Some (ex_rec ''C'' ''a'')]
                   else None),
      set_order = remdups\<rparr>"

section \<open>The ISSN check as the specification words it\<close>

definition issn_pad :: "string \<Rightarrow> string" where
  "issn_pad d = (if length d = 7 then CHR ''0'' # d else d)"

definition digit_val :: "char \<Rightarrow> int" where
  "digit_val c = int (ord c) - 48"

definition issn_sum :: "string \<Rightarrow> int" where
  "issn_sum d = (\<Sum>i<7. (8 - int i) * digit_val (d ! i))"

definition issn_chk :: "string \<Rightarrow> int" where
  "issn_chk d = (11 - issn_sum d mod 11) mod 11"

definition issn_check_char :: "string \<Rightarrow> char" where
  "issn_check_char d = (if issn_chk d = 10 then CHR ''X'' else char_of (nat (issn_chk d) + 48))"

section \<open>Facts about the validators\<close>

lemma ints_of_Some_iff: "(\<exists>vs. ints_of s = Some vs) = list_all is_dec s"
  by (induction s) (auto simp: int_of_char_def split: option.splits)

lemma ints_of_map: "list_all is_dec s \<Longrightarrow> ints_of s = Some (map digit_val s)"
  by (induction s) (auto simp: int_of_char_def digit_val_def)

lemma length8_cases:
  assumes "length (d :: string) = 8"
  obtains a b c e f g h k where "d = [a, b, c, e, f, g, h, k]"
proof -
  from assms obtain a d1 where 1: "d = a # d1" "length d1 = 7" by (cases d) auto
  then obtain b d2 where 2: "d1 = b # d2" "length d2 = 6" by (cases d1) auto
  then obtain c d3 where 3: "d2 = c # d3" "length d3 = 5" by (cases d2) auto
  then obtain e d4 where 4: "d3 = e # d4" "length d4 = 4" by (cases d3) auto
  then obtain f d5 where 5: "d4 = f # d5" "length d5 = 3" by (cases d4) auto
  then obtain g d6 where 6: "d5 = g # d6" "length d6 = 2" by (cases d5) auto
  then obtain h d7 where 7: "d6 = h # d7" "length d7 = 1" by (cases d6) auto
  then obtain k where 8: "d7 = [k]" by (cases d7) auto
  from 1 2 3 4 5 6 7 8 that show thesis by simp
qed

lemma issn_sum_weighted:
  assumes "length d = 8"
  shows "weighted_sum (\<lambda>i. 8 - int i) 0 (map digit_val (take 7 d)) = issn_sum d"
proof -
  from assms obtain a b c e f g h k where d: "d = [a, b, c, e, f, g, h, k]"
    by (rule length8_cases)
  have seven: "{..<7::nat} = {0, 1, 2, 3, 4, 5, 6}" by auto
  show ?thesis
    unfolding issn_sum_def seven d by (simp add: eval_nat_numeral)
qed

lemma issn_chk_range: "0 \<le> issn_chk d \<and> issn_chk d \<le> 10"
  unfolding issn_chk_def by presburger

text \<open>
  C8. \<open>is_valid_issn\<close>: a string of length 7 is first left-padded with one \<open>0\<close>; a
  string whose padded length is not 8 is rejected; otherwise, the seven data positions
  being digits, the sum of \<open>(8 - i) * digit_i\<close> over positions 0..6 is taken,
  \<open>chk = (11 - sum mod 11) mod 11\<close>, and the string is valid exactly when position 7 is
  \<open>X\<close> for \<open>chk = 10\<close> and the digit \<open>chk\<close> otherwise. (An \<open>X\<close> among the seven data
  positions has no digit value: the conversion raises and the string is rejected.)
\<close>

theorem is_valid_issn_spec:
  "is_valid_issn d =
     (length (issn_pad d) = 8 \<and> list_all is_dec (take 7 (issn_pad d))
      \<and> issn_pad d ! 7 = issn_check_char (issn_pad d))"
proof (cases "length (issn_pad d) = 8")
  case False
  then show ?thesis by (simp add: is_valid_issn_def issn_pad_def Let_def)
next
  case len: True
  show ?thesis
  proof (cases "list_all is_dec (take 7 (issn_pad d))")
    case False
    then have "ints_of (take 7 (issn_pad d)) = None"
      using ints_of_Some_iff [of "take 7 (issn_pad d)"] by (cases "ints_of (take 7 (issn_pad d))") auto
    with len False show ?thesis
      by (simp add: is_valid_issn_def issn_pad_def Let_def)
  next
    case True
    then have i: "ints_of (take 7 (issn_pad d)) = Some (map digit_val (take 7 (issn_pad d)))"
      by (rule ints_of_map)
    have s: "weighted_sum (\<lambda>i. 8 - int i) 0 (map digit_val (take 7 (issn_pad d))) = issn_sum (issn_pad d)"
      using len by (rule issn_sum_weighted)
    have r: "0 \<le> issn_chk (issn_pad d) \<and> issn_chk (issn_pad d) \<le> 10"
      by (rule issn_chk_range)
    have "is_valid_issn d =
            ((if issn_chk (issn_pad d) = 10 then ''X'' else str_of_digit (issn_chk (issn_pad d)))
               = [issn_pad d ! 7])"
      using len i s unfolding is_valid_issn_def issn_pad_def issn_chk_def Let_def by simp
    also have "\<dots> = (issn_pad d ! 7 = issn_check_char (issn_pad d))"
      unfolding issn_check_char_def str_of_digit_def by auto
    finally show ?thesis using len True by simp
  qed
qed

theorem is_valid_issn_spec_witness:
  "is_valid_issn ''03785955'' \<and> is_valid_issn ''3785955''
   \<and> is_valid_issn ''2434561X'' \<and> \<not> is_valid_issn ''123456789''"
proof -
  have a: "issn_chk ''03785955'' = 5"
    by (simp add: issn_chk_def issn_sum_def lessThan_Suc eval_nat_numeral digit_val_def ord_def)
  have b: "issn_chk ''2434561X'' = 10"
    by (simp add: issn_chk_def issn_sum_def lessThan_Suc eval_nat_numeral digit_val_def ord_def)
  show ?thesis
    using is_valid_issn_spec [of "''03785955''"] is_valid_issn_spec [of "''3785955''"]
      is_valid_issn_spec [of "''2434561X''"] is_valid_issn_spec [of "''123456789''"] a b
    by (simp add: issn_pad_def issn_check_char_def is_dec_def ord_def char_of_def bit_iff_odd)
qed


section \<open>Normalisation\<close>

lemma split_ws_nospace:
  "\<forall>c\<in>set w. \<not> py_isspace c \<Longrightarrow> split_ws cur (w @ rest) = split_ws (cur @ w) rest"
  by (induction w arbitrary: cur) auto

lemma split_ws_join:
  "\<forall>w\<in>set ws. w \<noteq> [] \<and> (\<forall>c\<in>set w. \<not> py_isspace c) \<Longrightarrow> split_ws [] (py_join '' '' ws) = ws"
proof (induction "'' ''" ws rule: py_join.induct)
  case 1
  then show ?case by simp
next
  case (2 x)
  then have "split_ws [] (x @ []) = split_ws ([] @ x) []" by (intro split_ws_nospace) simp
  with 2 show ?case by simp
next
  case (3 x y ys)
  then have "split_ws [] (x @ ('' '' @ py_join '' '' (y # ys))) = split_ws ([] @ x) ('' '' @ py_join '' '' (y # ys))"
    by (intro split_ws_nospace) simp
  with 3 show ?case by (simp add: py_isspace_def ord_def)
qed

lemma split_ws_tokens:
  "w \<in> set (split_ws cur s) \<Longrightarrow> w \<noteq> [] \<and> set w \<subseteq> set cur \<union> {c \<in> set s. \<not> py_isspace c}"
proof (induction s arbitrary: cur)
  case Nil
  then show ?case by (auto split: if_splits)
next
  case (Cons a s)
  show ?case
  proof (cases "py_isspace a")
    case False
    with Cons.prems have "w \<in> set (split_ws (cur @ [a]) s)" by simp
    from Cons.IH [OF this] False show ?thesis by auto
  next
    case True
    show ?thesis
    proof (cases "w \<in> set (split_ws [] s)")
      case True
      from Cons.IH [OF this] show ?thesis by auto
    next
      case False
      with Cons.prems \<open>py_isspace a\<close> have "w = cur \<and> cur \<noteq> []" by (auto split: if_splits)
      then show ?thesis by auto
    qed
  qed
qed

lemma set_py_join: "set (py_join '' '' ws) \<subseteq> \<Union> (set ` set ws) \<union> {CHR '' ''}"
  by (induction "'' ''" ws rule: py_join.induct) auto

lemma ord_char_of: "n < 256 \<Longrightarrow> ord (char_of n) = n"
  by (simp add: ord_def)

lemma py_lower_ascii: "ord c < 128 \<Longrightarrow> ord (py_lower c) < 128 \<and> py_lower (py_lower c) = py_lower c"
  by (auto simp: py_lower_def ord_char_of)

lemma space_settled: "settled (CHR '' '')"
  by (simp add: settled_def ord_def py_lower_def translate_punct_def PUNCT_def)

lemma settled_step: "ord c < 128 \<Longrightarrow> settled (translate_punct (py_lower c))"
  using py_lower_ascii [of c] space_settled
  by (auto simp: settled_def translate_punct_def)

lemma unidecode_ascii: "unidecode_contract tab \<Longrightarrow> \<forall>c\<in>set s. ord c < 128 \<Longrightarrow> unidecode tab s = s"
  by (induction s) (auto simp: unidecode_def unidecode_contract_def)

lemma unidecode_out: "unidecode_contract tab \<Longrightarrow> c \<in> set (unidecode tab s) \<Longrightarrow> ord c < 128"
  by (auto simp: unidecode_def unidecode_contract_def)

lemma normalize_text_settled:
  assumes "unidecode_contract tab" "c \<in> set (normalize_text tab s)"
  shows "settled c"
proof -
  define s1 where "s1 = map translate_punct (map py_lower (unidecode tab (case s of None \<Rightarrow> [] | Some x \<Rightarrow> x)))"
  have s1: "\<forall>c\<in>set s1. settled c"
    using unidecode_out [OF assms(1)] settled_step by (auto simp: s1_def)
  from assms(2) have "c \<in> set (py_join '' '' (py_split s1))"
    by (simp add: normalize_text_def s1_def)
  then have "c \<in> \<Union> (set ` set (py_split s1)) \<or> c = CHR '' ''"
    using set_py_join by fastforce
  then show ?thesis
  proof
    assume "c \<in> \<Union> (set ` set (py_split s1))"
    then obtain w where "w \<in> set (split_ws [] s1)" "c \<in> set w" by (auto simp: py_split_def)
    with split_ws_tokens [of w "[]" s1] have "c \<in> set s1" by auto
    with s1 show ?thesis by simp
  next
    assume "c = CHR '' ''" then show ?thesis by (simp add: space_settled)
  qed
qed

lemma normalize_text_idem_aux:
  assumes "unidecode_contract tab"
  shows "normalize_text tab (Some (normalize_text tab s)) = normalize_text tab s"
proof -
  define s1 where "s1 = map translate_punct (map py_lower (unidecode tab (case s of None \<Rightarrow> [] | Some x \<Rightarrow> x)))"
  define ws where "ws = py_split s1"
  define n where "n = normalize_text tab s"
  have n: "n = py_join '' '' ws" by (simp add: n_def normalize_text_def s1_def ws_def)
  have st: "\<forall>c\<in>set n. settled c" using normalize_text_settled [OF assms] by (simp add: n_def)
  then have u: "unidecode tab n = n" using unidecode_ascii [OF assms] by (simp add: settled_def)
  have lt: "map (translate_punct \<circ> py_lower) n = n" using st by (simp add: settled_def map_idI)
  have tok: "\<forall>w\<in>set ws. w \<noteq> [] \<and> (\<forall>c\<in>set w. \<not> py_isspace c)"
    using split_ws_tokens [of _ "[]" s1] by (auto simp: ws_def py_split_def)
  have "py_split n = ws" unfolding n py_split_def using tok by (rule split_ws_join)
  then have "normalize_text tab (Some n) = py_join '' '' ws"
    by (simp add: normalize_text_def u lt)
  then show ?thesis using n by (simp add: n_def)
qed


lemma ascii_tab_contract: "unidecode_contract ascii_tab"
  by (simp add: unidecode_contract_def ascii_tab_def)

text \<open>
  C9. \<open>normalize_text\<close> is total and idempotent: it is a function of every string and
  of \<open>None\<close> (no operation in it can raise), the empty string and \<open>None\<close> give the empty
  string, and normalising a normalised string changes nothing.
\<close>

theorem normalize_text_idempotent:
  assumes "unidecode_contract tab"
  shows "normalize_text tab None = [] \<and> normalize_text tab (Some []) = []
         \<and> normalize_text tab (Some (normalize_text tab s)) = normalize_text tab s"
  using normalize_text_idem_aux [OF assms, of s]
  by (simp add: normalize_text_def unidecode_def py_split_def)

theorem normalize_text_idempotent_witness:
  "unidecode_contract ascii_tab
   \<and> normalize_text ascii_tab (Some ''  Hello,  World|X '') = ''hello world x''
   \<and> normalize_text ascii_tab (Some ''hello world x'') = ''hello world x''"
proof -
  have v: "normalize_text ascii_tab (Some ''  Hello,  World|X '') = ''hello world x''"
    by code_simp
  show ?thesis
    using normalize_text_idempotent [OF ascii_tab_contract, of "Some ''  Hello,  World|X ''"] v
      ascii_tab_contract
    by simp
qed

lemma unidecode_sep:
  assumes "unidecode_contract tab" "ord c < 128"
  shows "unidecode tab (a @ c # t @ c # y)
         = unidecode tab a @ c # unidecode tab t @ c # unidecode tab y"
  using assms by (simp add: unidecode_def unidecode_contract_def)

lemma bar_is_space: "translate_punct (py_lower CHR ''|'') = translate_punct (py_lower CHR '' '')"
  by (simp add: translate_punct_def py_lower_def PUNCT_def ord_def)

lemma fuzzy_key_bar:
  assumes "unidecode_contract tab"
  shows "normalize_text tab (Some (a @ ''|'' @ t @ ''|'' @ y))
         = normalize_text tab (Some (a @ '' '' @ t @ '' '' @ y))"
proof -
  have b: "unidecode tab (a @ CHR ''|'' # t @ CHR ''|'' # y)
           = unidecode tab a @ CHR ''|'' # unidecode tab t @ CHR ''|'' # unidecode tab y"
    by (rule unidecode_sep [OF assms]) (simp add: ord_def)
  have s: "unidecode tab (a @ CHR '' '' # t @ CHR '' '' # y)
           = unidecode tab a @ CHR '' '' # unidecode tab t @ CHR '' '' # unidecode tab y"
    by (rule unidecode_sep [OF assms]) (simp add: ord_def)
  show ?thesis
    using bar_is_space by (simp add: normalize_text_def b s)
qed

text \<open>
  C10. \<open>|\<close> is in the punctuation table, so the fuzzy key does not delimit its three
  components: \<open>build_fuzzy_key\<close> is \<open>normalize_text\<close> of author, title and year joined
  by single spaces, and two records with the same joined text (the field boundary
  falling at another space) have the same fuzzy key.
\<close>

theorem build_fuzzy_key_no_delimiter:
  assumes "unidecode_contract tab"
  shows "build_fuzzy_key tab r
           = normalize_text tab (Some (extract_author r @ '' '' @ extract_title r @ '' '' @ extract_year r))
         \<and> (extract_author r @ '' '' @ extract_title r @ '' '' @ extract_year r
              = extract_author r' @ '' '' @ extract_title r' @ '' '' @ extract_year r'
            \<longrightarrow> build_fuzzy_key tab r = build_fuzzy_key tab r')"
  using fuzzy_key_bar [OF assms] by (simp add: build_fuzzy_key_def)

theorem build_fuzzy_key_no_delimiter_witness:
  "unidecode_contract ascii_tab
   \<and> extract_author
        [\<lparr>tag = ''100'', indicator1 = Some '' '', indicator2 = Some '' '',
           subfields = [(''a'', ''Ana Maria'')], data = []\<rparr>,
         \<lparr>tag = ''245'', indicator1 = Some '' '', indicator2 = Some '' '',
           subfields = [(''a'', ''Luz'')], data = []\<rparr>] = ''Ana Maria''
   \<and> extract_author
        [\<lparr>tag = ''100'', indicator1 = Some '' '', indicator2 = Some '' '',
           subfields = [(''a'', ''Ana'')], data = []\<rparr>,
         \<lparr>tag = ''245'', indicator1 = Some '' '', indicator2 = Some '' '',
           subfields = [(''a'', ''Maria Luz'')], data = []\<rparr>] = ''Ana''
   \<and> build_fuzzy_key ascii_tab
        [\<lparr>tag = ''100'', indicator1 = Some '' '', indicator2 = Some '' '',
           subfields = [(''a'', ''Ana Maria'')], data = []\<rparr>,
         \<lparr>tag = ''245'', indicator1 = Some '' '', indicator2 = Some '' '',
           subfields = [(''a'', ''Luz'')], data = []\<rparr>]
      = build_fuzzy_key ascii_tab
        [\<lparr>tag = ''100'', indicator1 = Some '' '', indicator2 = Some '' '',
           subfields = [(''a'', ''Ana'')], data = []\<rparr>,
         \<lparr>tag = ''245'', indicator1 = Some '' '', indicator2 = Some '' '',
           subfields = [(''a'', ''Maria Luz'')], data = []\<rparr>]"
proof -
  define r1 where "r1 =
        [\<lparr>tag = ''100'', indicator1 = Some '' '', indicator2 = Some '' '',
           subfields = [(''a'', ''Ana Maria'')], data = []\<rparr>,
         \<lparr>tag = ''245'', indicator1 = Some '' '', indicator2 = Some '' '',
           subfields = [(''a'', ''Luz'')], data = []\<rparr>]"
  define r2 where "r2 =
        [\<lparr>tag = ''100'', indicator1 = Some '' '', indicator2 = Some '' '',
           subfields = [(''a'', ''Ana'')], data = []\<rparr>,
         \<lparr>tag = ''245'', indicator1 = Some '' '', indicator2 = Some '' '',
           subfields = [(''a'', ''Maria Luz'')], data = []\<rparr>]"
  have a1: "extract_author r1 = ''Ana Maria''" and t1: "extract_title r1 = ''Luz''"
    and y1: "extract_year r1 = []"
    by (simp_all add: r1_def extract_author_def extract_title_def extract_year_def get_fields_def
        get_subfields_def)
  have a2: "extract_author r2 = ''Ana''" and t2: "extract_title r2 = ''Maria Luz''"
    and y2: "extract_year r2 = []"
    by (simp_all add: r2_def extract_author_def extract_title_def extract_year_def get_fields_def
        get_subfields_def)
  have "build_fuzzy_key ascii_tab r1 = build_fuzzy_key ascii_tab r2"
    using build_fuzzy_key_no_delimiter [OF ascii_tab_contract, of r1 r2]
    by (auto simp add: a1 t1 y1 a2 t2 y2)
  then show ?thesis
    using a1 a2 ascii_tab_contract unfolding r1_def r2_def by simp
qed

section \<open>Identifier normalisation without checksum enforcement\<close>

text \<open>
  C4. With checksum enforcement off, \<open>norm_isbn\<close> still rejects every candidate whose
  length is not 10 or 13, but \<open>norm_issn\<close> accepts a digit/X string of any length but
  zero: its length test lives inside \<open>is_valid_issn\<close>, which is not called. The
  two-character candidate \<open>12\<close> is accepted as an ISSN.
\<close>

theorem norm_issn_no_checksum_wrong_length:
  "norm_issn False ''12'' = Some ''12'' \<and> norm_issn True ''12'' = None
   \<and> norm_isbn False ''12'' = Inr None"
  by (simp add: norm_issn_def norm_isbn_def only_digits_x_def py_isdigit_def is_dec_def ord_def
      is_valid_issn_def)


theorem norm_issn_no_checksum_wrong_length_witness:
  "norm_issn False ''12'' \<noteq> None \<and> length ''12'' \<noteq> 8"
  using norm_issn_no_checksum_wrong_length by simp

section \<open>Merge\<close>

text \<open>
  C1. The merged record should hold, for a preferred tag, exactly the occurrences of the
  first member that has the tag, also when that member is the primary. The code does so
  when the donor is another member (\<open>ex_pair\<close>: the primary is the second member, the
  title comes from the first). When the donor is the primary itself, the record it
  empties and the record it then reads are the same object, and the merged record is
  left with no occurrence of the tag (\<open>ex_single\<close>: the only member has a title, the
  merged record has none).
\<close>

theorem merge_cluster_donor_is_primary:
  "map_sum id (get_fields [''245''])
     (merge_cluster ex_world ex_single [] [''245''] ''035'' ''910'' ''948'' False) = Inr []
   \<and> get_fields [''245''] (sr_record (members ex_single ! 0)) = [ex_title ''Uno'']
   \<and> choose_primary (members ex_single) [] = Inr 0
   \<and> map_sum id (get_fields [''245''])
     (merge_cluster ex_world ex_pair [] [''245''] ''035'' ''910'' ''948'' False)
       = Inr [copy_field (ex_title ''Corto'')]
   \<and> choose_primary (members ex_pair) [] = Inr 1"
  by code_simp

theorem merge_cluster_donor_is_primary_witness:
  "map_sum id (get_fields [''245''])
     (merge_cluster ex_world ex_single [] [''245''] ''035'' ''910'' ''948'' False)
   \<noteq> Inr (get_fields [''245''] (sr_record (members ex_single ! 0)))"
  using merge_cluster_donor_is_primary by (simp add: ex_title_def)

section \<open>Source arguments\<close>

lemma parse_sources_filter: "parse_sources xs = parse_sources (filter has_eq xs)"
  by (induction xs) (simp_all add: has_eq_def)

lemma parse_sources_length: "length (parse_sources xs) = length (filter has_eq xs)"
  by (induction xs) (simp_all add: has_eq_def)

text \<open>
  C5 as stated fails: the arguments \<open>LIB1\<close> (no \<open>=\<close>) and \<open>LIB2=b.mrc\<close> give a run that
  ends without an error, with the one record of \<open>b.mrc\<close> clustered.
\<close>

theorem malformed_source_not_reported:
  "\<not> has_eq (a_src ex_args ! 0) \<and> cluster_libs (main ex_world ex_args) = Inr [[''LIB2'']]"
  by code_simp

text \<open>
  C5, amended. A source argument without \<open>=\<close> is skipped: the run is the run on the
  well-formed source arguments alone, each of which yields one source.
\<close>

theorem main_skips_malformed_sources:
  "main w a = main w (a\<lparr>a_src := filter has_eq (a_src a)\<rparr>)
   \<and> length (parse_sources (a_src a)) = length (filter has_eq (a_src a))"
proof -
  have "parse_sources (a_src (a\<lparr>a_src := filter has_eq (a_src a)\<rparr>)) = parse_sources (a_src a)"
    using parse_sources_filter [of "a_src a"] by simp
  then have "main w (a\<lparr>a_src := filter has_eq (a_src a)\<rparr>) = main w a"
    unfolding main_def by (simp split: sum.splits)
  then show ?thesis
    using parse_sources_length [of "a_src a"] by simp
qed

theorem main_skips_malformed_sources_witness:
  "main ex_world ex_args = main ex_world (ex_args\<lparr>a_src := [''LIB2=b.mrc'']\<rparr>)
   \<and> length (parse_sources [''LIB1'', ''LIB2=b.mrc'']) = 1"
  using main_skips_malformed_sources [of ex_world ex_args]
  by (simp add: ex_args_def has_eq_def)

section \<open>The loop body of the clustering\<close>

lemma dict_set_snd: "snd ` set (dict_set k v ps) \<subseteq> insert v (snd ` set ps)"
  by (induction ps) auto

lemma dict_set_mem: "(k, v) \<in> set (dict_set k v ps)"
  by (induction ps) auto

lemma dict_set_keep: "(k', v') \<in> set ps \<Longrightarrow> k' \<noteq> k \<Longrightarrow> (k', v') \<in> set (dict_set k v ps)"
  by (induction ps) auto

lemma dict_set_fst: "fst ` set (dict_set k v ps) = insert k (fst ` set ps)"
  by (induction ps) auto

lemma fuzzy_scan_snd:
  "snd (fuzzy_scan ratio fk idx b) = snd b \<or> snd (fuzzy_scan ratio fk idx b) \<in> Some ` snd ` set idx"
proof (induction idx arbitrary: b)
  case Nil
  then show ?case by simp
next
  case (Cons kc idx)
  show ?case
    using Cons.IH [of "(ratio fk (fst kc), Some (snd kc))"] Cons.IH [of b]
    by (auto simp: Let_def)
qed

lemma cm_add_record:
  "cm (add_record ratio weak uf so st sr) =
     map (\<lambda>p. (fst p, if fst p = target ratio weak uf so st sr then snd p @ [sr] else snd p))
       (cm st @ (case find_cluster ratio weak uf so st (strong_key sr) (fuzzy_key sr) of
                   Some c \<Rightarrow> [] | None \<Rightarrow> [(next_id st, [])]))"
  by (simp add: cm_def add_record_def target_def Let_def upd_cluster_def o_def
      split: option.splits)

lemma next_id_add_record:
  "next_id (add_record ratio weak uf so st sr) =
     (case find_cluster ratio weak uf so st (strong_key sr) (fuzzy_key sr) of
        Some c \<Rightarrow> next_id st | None \<Rightarrow> next_id st + 1)"
  by (simp add: add_record_def Let_def split: option.splits)

lemma strong_index_add_record:
  "strong_index (add_record ratio weak uf so st sr) =
     (case strong_key sr of None \<Rightarrow> strong_index st
      | Some s \<Rightarrow> if s = [] then strong_index st
                  else dict_set s (target ratio weak uf so st sr) (strong_index st))"
  by (simp add: add_record_def target_def Let_def split: option.splits)

lemma fuzzy_index_add_record:
  "fuzzy_index (add_record ratio weak uf so st sr) =
     (case fuzzy_key sr of None \<Rightarrow> fuzzy_index st
      | Some s \<Rightarrow> if s = [] then fuzzy_index st
                  else dict_set s (target ratio weak uf so st sr) (fuzzy_index st))"
  by (simp add: add_record_def target_def Let_def split: option.splits)

lemma members_of_cm: "members_of st c = concat (map snd (filter (\<lambda>p. fst p = c) (cm st)))"
  by (simp add: members_of_def cm_def filter_map o_def)

lemma wf_state_cm:
  "wf_state st =
     (distinct (map fst (cm st)) \<and> (\<forall>i \<in> fst ` set (cm st). i < next_id st)
      \<and> snd ` set (strong_index st) \<subseteq> fst ` set (cm st)
      \<and> snd ` set (fuzzy_index st) \<subseteq> fst ` set (cm st))"
  by (auto simp: wf_state_def cm_def list_all_iff o_def image_image)

lemma find_cluster_range:
  assumes "find_cluster ratio weak uf so st sk fk = Some c"
  shows "c \<in> snd ` set (strong_index st) \<union> snd ` set (fuzzy_index st)"
proof (cases "strong_lookup st sk")
  case (Some c')
  with assms have "c' = c" by (simp add: find_cluster_def)
  with Some have "map_of (strong_index st) (the sk) = Some c"
    by (auto simp: strong_lookup_def split: option.splits if_splits)
  then have "(the sk, c) \<in> set (strong_index st)" by (rule map_of_SomeD)
  then show ?thesis by force
next
  case None
  define best where "best = fuzzy_scan ratio (case fk of Some s \<Rightarrow> s | None \<Rightarrow> []) (fuzzy_index st) (0, None)"
  from assms None have "snd best = Some c"
    by (auto simp: find_cluster_def best_def Let_def split: if_splits option.splits)
  moreover have "snd best = None \<or> snd best \<in> Some ` snd ` set (fuzzy_index st)"
    using fuzzy_scan_snd [of ratio _ "fuzzy_index st" "(0, None)"] by (simp add: best_def)
  ultimately show ?thesis by auto
qed

lemma target_range:
  "target ratio weak uf so st sr \<in> snd ` set (strong_index st) \<union> snd ` set (fuzzy_index st) \<union> {next_id st}"
  using find_cluster_range [of ratio weak uf so st "strong_key sr" "fuzzy_key sr"]
  by (auto simp: target_def split: option.splits)

lemma ids_add_record:
  "map fst (cm (add_record ratio weak uf so st sr)) =
     map fst (cm st) @ (case find_cluster ratio weak uf so st (strong_key sr) (fuzzy_key sr) of
                   Some c \<Rightarrow> [] | None \<Rightarrow> [next_id st])"
  by (simp add: cm_add_record o_def split: option.splits)

lemma fst_cm_add_record:
  "fst ` set (cm (add_record ratio weak uf so st sr)) =
     fst ` set (cm st) \<union> (case find_cluster ratio weak uf so st (strong_key sr) (fuzzy_key sr) of
                   Some c \<Rightarrow> {} | None \<Rightarrow> {next_id st})"
proof -
  have "fst ` set (cm (add_record ratio weak uf so st sr))
        = set (map fst (cm (add_record ratio weak uf so st sr)))" by simp
  also have "\<dots> = set (map fst (cm st) @ (case find_cluster ratio weak uf so st (strong_key sr) (fuzzy_key sr) of
                   Some c \<Rightarrow> [] | None \<Rightarrow> [next_id st]))"
    by (simp only: ids_add_record)
  finally show ?thesis by (auto split: option.splits)
qed

lemma index_step:
  assumes "snd ` set idx \<subseteq> A" "t \<in> B" "A \<subseteq> B"
  shows "snd ` set (dict_set k t idx) \<subseteq> B"
  using assms dict_set_snd [of k t idx] by blast

lemma wf_add_record:
  assumes "wf_state st"
  shows "wf_state (add_record ratio weak uf so st sr)"
proof -
  let ?st' = "add_record ratio weak uf so st sr"
  let ?t = "target ratio weak uf so st sr"
  let ?fc = "find_cluster ratio weak uf so st (strong_key sr) (fuzzy_key sr)"
  from assms have d: "distinct (map fst (cm st))" and lt: "\<forall>i \<in> fst ` set (cm st). i < next_id st"
    and si: "snd ` set (strong_index st) \<subseteq> fst ` set (cm st)"
    and fi: "snd ` set (fuzzy_index st) \<subseteq> fst ` set (cm st)"
    by (simp_all add: wf_state_cm)
  have ids: "map fst (cm ?st') = map fst (cm st) @ (case ?fc of Some c \<Rightarrow> [] | None \<Rightarrow> [next_id st])"
    by (rule ids_add_record)
  have d': "distinct (map fst (cm ?st'))"
    using d lt by (auto simp: ids split: option.splits)
  have lt': "\<forall>i \<in> fst ` set (cm ?st'). i < next_id ?st'"
    using lt by (auto simp: fst_cm_add_record next_id_add_record split: option.splits)
  have t: "?t \<in> fst ` set (cm ?st')"
  proof (cases ?fc)
    case None
    then show ?thesis by (simp add: fst_cm_add_record target_def)
  next
    case (Some c)
    from find_cluster_range [OF Some] si fi have "c \<in> fst ` set (cm st)" by auto
    with Some show ?thesis by (simp add: fst_cm_add_record target_def)
  qed
  have AB: "fst ` set (cm st) \<subseteq> fst ` set (cm ?st')"
    by (auto simp: fst_cm_add_record)
  have si': "snd ` set (strong_index ?st') \<subseteq> fst ` set (cm ?st')"
  proof (cases "strong_key sr")
    case None
    with si AB show ?thesis by (auto simp add: strong_index_add_record)
  next
    case (Some s)
    show ?thesis
    proof (cases "s = []")
      case True
      with Some si AB show ?thesis by (auto simp add: strong_index_add_record)
    next
      case False
      with Some index_step [OF si t AB] show ?thesis by (simp add: strong_index_add_record)
    qed
  qed
  have fi': "snd ` set (fuzzy_index ?st') \<subseteq> fst ` set (cm ?st')"
  proof (cases "fuzzy_key sr")
    case None
    with fi AB show ?thesis by (auto simp add: fuzzy_index_add_record)
  next
    case (Some s)
    show ?thesis
    proof (cases "s = []")
      case True
      with Some fi AB show ?thesis by (auto simp add: fuzzy_index_add_record)
    next
      case False
      with Some index_step [OF fi t AB] show ?thesis by (simp add: fuzzy_index_add_record)
    qed
  qed
  show ?thesis using d' lt' si' fi' by (simp add: wf_state_cm)
qed

lemma members_of_add_record:
  assumes "wf_state st"
  shows "members_of (add_record ratio weak uf so st sr) c =
           (if c = target ratio weak uf so st sr then members_of st c @ [sr] else members_of st c)"
proof -
  let ?t = "target ratio weak uf so st sr"
  let ?fc = "find_cluster ratio weak uf so st (strong_key sr) (fuzzy_key sr)"
  from assms have lt: "\<forall>i \<in> fst ` set (cm st). i < next_id st"
    and d: "distinct (map fst (cm st))"
    by (simp_all add: wf_state_cm)
  have gen: "\<And>xs. concat (map snd (filter (\<lambda>p. fst p = c)
                (map (\<lambda>p. (fst p, if fst p = ?t then snd p @ [sr] else snd p)) xs)))
            = (if c = ?t then concat (map (\<lambda>p. snd p @ [sr]) (filter (\<lambda>p. fst p = c) xs))
               else concat (map snd (filter (\<lambda>p. fst p = c) xs)))"
  proof -
    fix xs :: "(nat \<times> SourceRecord list) list"
    show "concat (map snd (filter (\<lambda>p. fst p = c)
                (map (\<lambda>p. (fst p, if fst p = ?t then snd p @ [sr] else snd p)) xs)))
            = (if c = ?t then concat (map (\<lambda>p. snd p @ [sr]) (filter (\<lambda>p. fst p = c) xs))
               else concat (map snd (filter (\<lambda>p. fst p = c) xs)))"
      by (induction xs) auto
  qed
  have one: "\<And>xs. distinct (map fst xs) \<Longrightarrow> c \<in> fst ` set xs \<Longrightarrow>
       concat (map (\<lambda>p. snd p @ [sr]) (filter (\<lambda>p. fst p = c) xs))
       = concat (map snd (filter (\<lambda>p. fst p = c) (xs :: (nat \<times> SourceRecord list) list))) @ [sr]"
  proof -
    fix xs :: "(nat \<times> SourceRecord list) list"
    show "distinct (map fst xs) \<Longrightarrow> c \<in> fst ` set xs \<Longrightarrow>
       concat (map (\<lambda>p. snd p @ [sr]) (filter (\<lambda>p. fst p = c) xs))
       = concat (map snd (filter (\<lambda>p. fst p = c) xs)) @ [sr]"
    proof (induction xs)
      case Nil then show ?case by simp
    next
      case (Cons x xs)
      show ?case
      proof (cases "fst x = c")
        case True
        with Cons.prems have "c \<notin> fst ` set xs" by auto
        then have "filter (\<lambda>p. fst p = c) xs = []" by (force simp: filter_empty_conv)
        with True show ?thesis by simp
      next
        case False
        with Cons show ?thesis by auto
      qed
    qed
  qed
  show ?thesis
  proof (cases ?fc)
    case (Some c')
    then have t: "?t = c'" by (simp add: target_def)
    have "c' \<in> fst ` set (cm st)"
      using find_cluster_range [OF Some] assms by (auto simp: wf_state_cm)
    then show ?thesis
      using Some t gen [of "cm st"] one [OF d, of ] 
      by (auto simp: members_of_cm cm_add_record)
  next
    case None
    then have t: "?t = next_id st" by (simp add: target_def)
    have nin: "next_id st \<notin> fst ` set (cm st)" using lt by auto
    then have e: "filter (\<lambda>p. fst p = next_id st) (cm st) = []"
      by (force simp: filter_empty_conv)
    show ?thesis
      using None t e gen [of "cm st @ [(next_id st, [])]"]
      by (auto simp: members_of_cm cm_add_record)
  qed
qed


lemma wf_init: "wf_state init_state"
  by (simp add: wf_state_def init_state_def)


section \<open>The fuzzy pass\<close>

lemma max_similarity_single: "max_similarity ratio fk [kc] = ratio fk (fst kc)"
  by (simp add: max_similarity_def)

lemma max_similarity_Cons:
  "rest \<noteq> [] \<Longrightarrow> max_similarity ratio fk (kc # rest)
     = max (ratio fk (fst kc)) (max_similarity ratio fk rest)"
  by (simp add: max_similarity_def)


lemma first_best_Cons_hit:
  "ratio fk (fst kc) = max_similarity ratio fk (kc # rest)
   \<Longrightarrow> first_best_cluster ratio fk (kc # rest) = Some (snd kc)"
  by (simp add: first_best_cluster_def)

lemma first_best_Cons_miss:
  assumes "rest \<noteq> []" "ratio fk (fst kc) < max_similarity ratio fk rest"
  shows "first_best_cluster ratio fk (kc # rest) = first_best_cluster ratio fk rest"
proof -
  have "max_similarity ratio fk (kc # rest) = max_similarity ratio fk rest"
    using assms by (simp add: max_similarity_Cons)
  with assms(2) show ?thesis by (simp add: first_best_cluster_def)
qed

lemma fuzzy_scan_spec:
  "fuzzy_scan ratio fk idx b =
     (if idx \<noteq> [] \<and> fst b < max_similarity ratio fk idx
      then (max_similarity ratio fk idx, first_best_cluster ratio fk idx) else b)"
proof (induction idx arbitrary: b)
  case Nil
  then show ?case by simp
next
  case (Cons kc rest)
  let ?s = "ratio fk (fst kc)"
  show ?case
  proof (cases "rest = []")
    case True
    then show ?thesis
      by (simp add: max_similarity_single first_best_Cons_hit Let_def)
  next
    case False
    let ?M' = "max_similarity ratio fk rest"
    have M: "max_similarity ratio fk (kc # rest) = max ?s ?M'"
      using False by (rule max_similarity_Cons)
    show ?thesis
    proof (cases "fst b < ?s")
      case True
      have scan: "fuzzy_scan ratio fk (kc # rest) b = fuzzy_scan ratio fk rest (?s, Some (snd kc))"
        using True by (simp add: Let_def)
      show ?thesis
      proof (cases "?s < ?M'")
        case True
        with \<open>fst b < ?s\<close> False show ?thesis
          unfolding scan Cons.IH
          by (simp add: M first_best_Cons_miss max_def)
      next
        case False
        then have "?s = max_similarity ratio fk (kc # rest)" by (simp add: M max_def)
        from first_best_Cons_hit [OF this] False \<open>fst b < ?s\<close> show ?thesis
          unfolding scan Cons.IH
          by (simp add: M max_def)
      qed
    next
      case nb: False
      have scan: "fuzzy_scan ratio fk (kc # rest) b = fuzzy_scan ratio fk rest b"
        using nb by (simp add: Let_def)
      show ?thesis
      proof (cases "fst b < ?M'")
        case True
        with nb have "?s < ?M'" by simp
        with True False show ?thesis
          unfolding scan Cons.IH
          by (simp add: M first_best_Cons_miss max_def)
      next
        case False
        with nb \<open>rest \<noteq> []\<close> show ?thesis
          unfolding scan Cons.IH
          by (simp add: M max_def)
      qed
    qed
  qed
qed

lemma first_best_exists:
  assumes "idx \<noteq> []"
  shows "\<exists>c. first_best_cluster ratio fk idx = Some c \<and> c \<in> snd ` set idx"
proof -
  have "max_similarity ratio fk idx \<in> set (map (\<lambda>kc. ratio fk (fst kc)) idx)"
    unfolding max_similarity_def using assms by (intro Max_in) auto
  then obtain kc where "kc \<in> set idx" "ratio fk (fst kc) = max_similarity ratio fk idx" by auto
  then have "find (\<lambda>kc. ratio fk (fst kc) = max_similarity ratio fk idx) idx \<noteq> None"
    unfolding find_None_iff by blast
  then obtain x where x: "find (\<lambda>kc. ratio fk (fst kc) = max_similarity ratio fk idx) idx = Some x"
    by auto
  then have "x \<in> set idx" by (auto simp: find_Some_iff)
  with x show ?thesis by (auto simp: first_best_cluster_def)
qed

lemma find_cluster_fuzzy:
  assumes "fk \<noteq> []" "strong_lookup st sk = None"
  shows "find_cluster ratio weak True False st sk (Some fk) =
           (if fuzzy_index st \<noteq> [] \<and> 0 < max_similarity ratio fk (fuzzy_index st)
               \<and> of_int weak \<le> max_similarity ratio fk (fuzzy_index st)
            then first_best_cluster ratio fk (fuzzy_index st) else None)"
proof (cases "fuzzy_index st \<noteq> [] \<and> 0 < max_similarity ratio fk (fuzzy_index st)")
  case True
  then obtain c where "first_best_cluster ratio fk (fuzzy_index st) = Some c"
    using first_best_exists by blast
  with True assms show ?thesis
    by (simp add: find_cluster_def truthy_def fuzzy_scan_spec Let_def)
next
  case False
  with assms show ?thesis
    by (auto simp add: find_cluster_def truthy_def fuzzy_scan_spec Let_def)
qed

lemma members_of_fresh:
  assumes "wf_state st"
  shows "members_of st (next_id st) = []"
proof -
  from assms have "\<forall>i \<in> fst ` set (cm st). i < next_id st" by (simp add: wf_state_cm)
  then have "filter (\<lambda>p. fst p = next_id st) (cm st) = []" by (force simp: filter_empty_conv)
  then show ?thesis by (simp add: members_of_cm)
qed

text \<open>
  C3 as stated fails for a threshold of 0: the index holds the key \<open>a\<close> of cluster 1,
  the record has the key \<open>b\<close>, their similarity is 0. The best score 0 reaches the
  threshold 0 and the first key with the best score belongs to cluster 1, but the scan
  starts from \<open>best_sc = 0\<close> and only takes a key with a greater score: no cluster is
  kept and the record opens cluster 2.
\<close>

theorem fuzzy_threshold_zero_no_merge:
  "fuzzy_key ex_b = Some ''b'' \<and> strong_lookup ex_state (strong_key ex_b) = None
   \<and> fuzzy_index ex_state = [(''a'', 1)]
   \<and> first_best_cluster ex_ratio ''b'' (fuzzy_index ex_state) = Some 1
   \<and> of_int 0 \<le> max_similarity ex_ratio ''b'' (fuzzy_index ex_state)
   \<and> members_of (add_record ex_ratio 0 True False ex_state ex_b) 1 = members_of ex_state 1
   \<and> members_of (add_record ex_ratio 0 True False ex_state ex_b) 2 = [ex_b]"
  by code_simp

text \<open>
  C3, amended. For a record with a fuzzy key and no hit in the strong index, the scan
  keeps the cluster of the first key (in index order) that reaches the greatest
  similarity, and the record joins that cluster if and only if the greatest similarity
  is greater than 0 and at least the threshold; otherwise it opens the new cluster
  \<open>next_id\<close>. No other cluster changes. (For a threshold of 1 or more this is the
  claim as stated: a similarity equal to the threshold merges, a smaller one does not.)
  The hypothesis \<open>wf_state\<close> holds in every state of a run: it holds at the start
  (\<open>wf_init\<close>) and the loop body keeps it (\<open>wf_add_record\<close>).
\<close>

theorem fuzzy_pass_assignment:
  assumes "wf_state st" "fuzzy_key sr = Some fk" "fk \<noteq> []"
    "strong_lookup st (strong_key sr) = None"
  shows
    "(fuzzy_index st \<noteq> [] \<and> 0 < max_similarity ratio fk (fuzzy_index st)
        \<and> of_int weak \<le> max_similarity ratio fk (fuzzy_index st)
      \<longrightarrow> (\<exists>c. first_best_cluster ratio fk (fuzzy_index st) = Some c
             \<and> members_of (add_record ratio weak True False st sr) c = members_of st c @ [sr]
             \<and> (\<forall>c'. c' \<noteq> c \<longrightarrow>
                   members_of (add_record ratio weak True False st sr) c' = members_of st c')))
     \<and> (\<not> (fuzzy_index st \<noteq> [] \<and> 0 < max_similarity ratio fk (fuzzy_index st)
            \<and> of_int weak \<le> max_similarity ratio fk (fuzzy_index st))
      \<longrightarrow> members_of st (next_id st) = []
          \<and> members_of (add_record ratio weak True False st sr) (next_id st) = [sr]
          \<and> (\<forall>c'. c' \<noteq> next_id st \<longrightarrow>
                members_of (add_record ratio weak True False st sr) c' = members_of st c'))"
proof -
  let ?assigned = "fuzzy_index st \<noteq> [] \<and> 0 < max_similarity ratio fk (fuzzy_index st)
        \<and> of_int weak \<le> max_similarity ratio fk (fuzzy_index st)"
  have fc: "find_cluster ratio weak True False st (strong_key sr) (fuzzy_key sr) =
           (if ?assigned then first_best_cluster ratio fk (fuzzy_index st) else None)"
    using find_cluster_fuzzy [OF assms(3,4)] assms(2) by simp
  show ?thesis
  proof (cases ?assigned)
    case True
    then obtain c where c: "first_best_cluster ratio fk (fuzzy_index st) = Some c"
      using first_best_exists by blast
    with True fc have t: "target ratio weak True False st sr = c" by (simp add: target_def)
    show ?thesis
      using True c t members_of_add_record [OF assms(1), of ratio weak True False sr]
      by simp
  next
    case False
    with fc have t: "target ratio weak True False st sr = next_id st" by (simp add: target_def)
    show ?thesis
      using False t members_of_add_record [OF assms(1), of ratio weak True False sr]
        members_of_fresh [OF assms(1)]
      by auto
  qed
qed


theorem fuzzy_pass_assignment_witness:
  "wf_state ex_state \<and> fuzzy_key ex_a2 = Some ''a'' \<and> strong_lookup ex_state (strong_key ex_a2) = None
   \<and> max_similarity ex_ratio ''a'' (fuzzy_index ex_state) = of_int 100
   \<and> members_of (add_record ex_ratio 100 True False ex_state ex_a2) 1 = members_of ex_state 1 @ [ex_a2]
   \<and> members_of (add_record ex_ratio 101 True False ex_state ex_a2) 2 = [ex_a2]"
proof -
  have w: "wf_state ex_state" by code_simp
  have k: "fuzzy_key ex_a2 = Some ''a''" by code_simp
  have n: "''a'' \<noteq> []" by simp
  have s: "strong_lookup ex_state (strong_key ex_a2) = None" by code_simp
  have i: "fuzzy_index ex_state \<noteq> []" by code_simp
  have m: "max_similarity ex_ratio ''a'' (fuzzy_index ex_state) = of_int 100" by code_simp
  have f: "first_best_cluster ex_ratio ''a'' (fuzzy_index ex_state) = Some 1" by code_simp
  have x: "next_id ex_state = 2" by code_simp
  have a: "members_of (add_record ex_ratio 100 True False ex_state ex_a2) 1 = members_of ex_state 1 @ [ex_a2]"
    using fuzzy_pass_assignment [OF w k n s, of ex_ratio 100] i m f by simp
  have b: "members_of (add_record ex_ratio 101 True False ex_state ex_a2) 2 = [ex_a2]"
    using fuzzy_pass_assignment [OF w k n s, of ex_ratio 101] i m x by simp
  show ?thesis using w k s m a b by simp
qed

section \<open>Clusters that no index reaches\<close>

lemma next_id_mono: "next_id st \<le> next_id (add_record ratio weak uf so st sr)"
  by (simp add: next_id_add_record split: option.splits)

lemma index_values_strong:
  "snd ` set (strong_index (add_record ratio weak uf so st sr))
     \<subseteq> insert (target ratio weak uf so st sr) (snd ` set (strong_index st))"
  using dict_set_snd [of _ "target ratio weak uf so st sr" "strong_index st"]
  by (auto simp: strong_index_add_record split: option.splits)

lemma index_values_fuzzy:
  "snd ` set (fuzzy_index (add_record ratio weak uf so st sr))
     \<subseteq> insert (target ratio weak uf so st sr) (snd ` set (fuzzy_index st))"
  using dict_set_snd [of _ "target ratio weak uf so st sr" "fuzzy_index st"]
  by (auto simp: fuzzy_index_add_record split: option.splits)

lemma sealed_step:
  assumes "wf_state st" "sealed st n"
  shows "sealed (add_record ratio weak uf so st sr) n
         \<and> members_of (add_record ratio weak uf so st sr) n = members_of st n"
proof -
  let ?t = "target ratio weak uf so st sr"
  have "?t \<noteq> n"
    using target_range [of ratio weak uf so st sr] assms(2) by (auto simp: sealed_def)
  moreover have "n < next_id (add_record ratio weak uf so st sr)"
    using next_id_mono [of st ratio weak uf so sr] assms(2) by (simp add: sealed_def)
  ultimately show ?thesis
    using index_values_strong [of ratio weak uf so st sr]
      index_values_fuzzy [of ratio weak uf so st sr] assms(2)
      members_of_add_record [OF assms(1), of ratio weak uf so sr n]
    by (auto simp: sealed_def)
qed

lemma wf_add_records:
  "wf_state st \<Longrightarrow> wf_state (add_records ratio weak uf so st srs)"
  by (induction srs arbitrary: st) (simp_all add: add_records_def wf_add_record)

lemma add_records_append:
  "add_records ratio weak uf so st (xs @ ys)
     = add_records ratio weak uf so (add_records ratio weak uf so st xs) ys"
  by (simp add: add_records_def)

lemma add_records_Cons:
  "add_records ratio weak uf so st (x # xs)
     = add_records ratio weak uf so (add_record ratio weak uf so st x) xs"
  by (simp add: add_records_def)

lemma sealed_many:
  "wf_state st \<Longrightarrow> sealed st n \<Longrightarrow>
     members_of (add_records ratio weak uf so st srs) n = members_of st n"
proof (induction srs arbitrary: st)
  case Nil
  then show ?case by (simp add: add_records_def)
next
  case (Cons sr srs)
  from sealed_step [OF Cons.prems, of ratio weak uf so sr] wf_add_record [OF Cons.prems(1), of ratio weak uf so sr]
  show ?case using Cons.IH by (simp add: add_records_Cons)
qed

lemma keyless_find:
  assumes "\<not> truthy sk" "\<not> truthy fk"
  shows "find_cluster ratio weak uf so st sk fk = None"
  using assms by (auto simp: find_cluster_def strong_lookup_def truthy_def split: option.splits)

lemma keyless_new:
  assumes "wf_state st" "\<not> truthy (strong_key sr)" "\<not> truthy (fuzzy_key sr)"
  shows "sealed (add_record ratio weak uf so st sr) (next_id st)
         \<and> members_of (add_record ratio weak uf so st sr) (next_id st) = [sr]"
proof -
  have f: "find_cluster ratio weak uf so st (strong_key sr) (fuzzy_key sr) = None"
    using assms(2,3) by (rule keyless_find)
  then have t: "target ratio weak uf so st sr = next_id st" by (simp add: target_def)
  have si: "strong_index (add_record ratio weak uf so st sr) = strong_index st"
    using assms(2) by (auto simp: strong_index_add_record truthy_def split: option.splits)
  have fi: "fuzzy_index (add_record ratio weak uf so st sr) = fuzzy_index st"
    using assms(3) by (auto simp: fuzzy_index_add_record truthy_def split: option.splits)
  have old: "\<forall>i \<in> snd ` set (strong_index st) \<union> snd ` set (fuzzy_index st). i < next_id st"
    using assms(1) unfolding wf_state_cm by blast
  have "sealed (add_record ratio weak uf so st sr) (next_id st)"
    using old f by (auto simp: sealed_def si fi next_id_add_record)
  moreover have "members_of (add_record ratio weak uf so st sr) (next_id st) = [sr]"
    using members_of_add_record [OF assms(1), of ratio weak uf so sr "next_id st"] t
      members_of_fresh [OF assms(1)] by simp
  ultimately show ?thesis by simp
qed

lemma first_isbn_none:
  "\<forall>v\<in>set vs. norm_isbn V v = Inr None \<Longrightarrow> first_isbn V vs = Inr None"
  by (induction vs) auto

lemma first_issn_none:
  "\<forall>v\<in>set vs. norm_issn V v = None \<Longrightarrow> first_issn V vs = None"
  by (induction vs) auto

lemma extract_strong_key_none:
  assumes "\<forall>v\<in>set (isbn_candidates r). norm_isbn V v = Inr None"
    "\<forall>v\<in>set (issn_candidates r). norm_issn V v = None"
  shows "extract_strong_key V r = Inr None"
  using first_isbn_none [OF assms(1)] first_issn_none [OF assms(2)]
  by (simp add: extract_strong_key_def isbn_candidates_def issn_candidates_def)

lemma split_ws_empty: "(split_ws cur s = []) = (cur = [] \<and> list_all py_isspace s)"
  by (induction s arbitrary: cur) auto

lemma py_join_empty: "\<forall>w\<in>set ws. w \<noteq> [] \<Longrightarrow> (py_join sep ws = []) = (ws = [])"
  by (induction sep ws rule: py_join.induct) auto

lemma normalize_text_empty_iff:
  "(normalize_text tab (Some s) = [])
     = list_all py_isspace (map translate_punct (map py_lower (unidecode tab s)))"
proof -
  let ?x = "map translate_punct (map py_lower (unidecode tab s))"
  have tok: "\<forall>w\<in>set (py_split ?x). w \<noteq> []"
    using split_ws_tokens [of _ "[]" ?x] by (auto simp: py_split_def)
  have "(normalize_text tab (Some s) = []) = (py_join '' '' (py_split ?x) = [])"
    by (simp add: normalize_text_def)
  also have "\<dots> = (py_split ?x = [])" using tok by (rule py_join_empty)
  also have "\<dots> = list_all py_isspace ?x" by (simp add: py_split_def split_ws_empty)
  finally show ?thesis .
qed

lemma bar_space: "py_isspace (translate_punct (py_lower CHR ''|''))"
  by (simp add: translate_punct_def py_lower_def PUNCT_def ord_def py_isspace_def)

lemma fuzzy_key_empty:
  assumes "unidecode_contract tab"
    "normalize_text tab (Some a) = []" "normalize_text tab (Some t) = []"
    "normalize_text tab (Some y) = []"
  shows "normalize_text tab (Some (a @ ''|'' @ t @ ''|'' @ y)) = []"
proof -
  have b: "unidecode tab (a @ CHR ''|'' # t @ CHR ''|'' # y)
           = unidecode tab a @ CHR ''|'' # unidecode tab t @ CHR ''|'' # unidecode tab y"
    by (rule unidecode_sep [OF assms(1)]) (simp add: ord_def)
  show ?thesis
    using assms(2-4) bar_space by (simp add: normalize_text_empty_iff b)
qed

section \<open>Chaining through the fuzzy index\<close>

lemma process_records_stream:
  "read_records w V uf l rs = Inr srs \<Longrightarrow>
     process_records w V weak uf so l st rs = Inr (add_records (token_sort_ratio w) weak uf so st srs)"
proof (induction rs arbitrary: st srs)
  case Nil
  then show ?case by (simp add: add_records_def)
next
  case (Cons r rs)
  from Cons.prems obtain sk xs where sk: "extract_strong_key V r = Inr sk"
    and xs: "read_records w V uf l rs = Inr xs" and srs: "srs = make_source_record w uf l r sk # xs"
    by (auto split: sum.splits)
  from Cons.IH [OF xs] sk srs show ?case by (simp add: add_records_Cons)
qed

lemma process_sources_stream:
  "source_records w V uf srcs = Inr srs \<Longrightarrow>
     process_sources w V weak uf so st srcs = Inr (add_records (token_sort_ratio w) weak uf so st srs)"
proof (induction srcs arbitrary: st srs)
  case Nil
  then show ?case by (simp add: add_records_def)
next
  case (Cons lp srcs)
  from Cons.prems obtain rs xs ys where rs: "iter_records_mrc w (snd lp) = Inr rs"
    and xs: "read_records w V uf (fst lp) rs = Inr xs"
    and ys: "source_records w V uf srcs = Inr ys" and srs: "srs = xs @ ys"
    by (auto split: sum.splits)
  from process_records_stream [OF xs] Cons.IH [OF ys] rs srs show ?case
    by (simp add: add_records_append)
qed

lemma build_clusters_stream:
  "source_records w V uf srcs = Inr srs \<Longrightarrow>
     build_clusters w V srcs weak uf so
       = Inr (clusters (add_records (token_sort_ratio w) weak uf so init_state srs))"
  by (simp add: build_clusters_def process_sources_stream)











section \<open>Determinism\<close>

lemma sort_set_order:
  assumes "set_order_contract f" "set_order_contract g"
  shows "sort (f xs) = sort (g (xs :: string list))"
proof -
  from assms have "distinct (f xs)" "distinct (g xs)" "set (f xs) = set (g xs)"
    by (simp_all add: set_order_contract_def)
  then show ?thesis
    by (intro sorted_distinct_set_unique) simp_all
qed

lemma iter_records_mrc_set_order:
  "iter_records_mrc (w\<lparr>set_order := f\<rparr>) path = iter_records_mrc w path"
  by (simp add: iter_records_mrc_def)

lemma make_source_record_set_order:
  "make_source_record (w\<lparr>set_order := f\<rparr>) uf l r sk = make_source_record w uf l r sk"
  by (simp add: make_source_record_def)

lemma process_records_set_order:
  "process_records (w\<lparr>set_order := f\<rparr>) V weak uf so l st rs = process_records w V weak uf so l st rs"
  by (induction rs arbitrary: st) (simp_all add: make_source_record_set_order split: sum.splits)

lemma process_sources_set_order:
  "process_sources (w\<lparr>set_order := f\<rparr>) V weak uf so st srcs = process_sources w V weak uf so st srcs"
  by (induction srcs arbitrary: st)
     (simp_all add: iter_records_mrc_set_order process_records_set_order split: sum.splits)

lemma build_clusters_set_order:
  "build_clusters (w\<lparr>set_order := f\<rparr>) V srcs weak uf so = build_clusters w V srcs weak uf so"
  by (simp add: build_clusters_def process_sources_set_order)

lemma merge_cluster_set_order:
  assumes "set_order_contract f" "set_order_contract g"
  shows "merge_cluster (w\<lparr>set_order := f\<rparr>) cl pref pf prov hold mrg keep9
         = merge_cluster (w\<lparr>set_order := g\<rparr>) cl pref pf prov hold mrg keep9"
  using sort_set_order [OF assms] by (simp add: merge_cluster_def Let_def split: sum.splits)

lemma write_union_set_order:
  assumes "set_order_contract f" "set_order_contract g"
  shows "write_union (w\<lparr>set_order := f\<rparr>) cls pref pf prov hold mrg keep9
         = write_union (w\<lparr>set_order := g\<rparr>) cls pref pf prov hold mrg keep9"
  by (induction cls) (simp_all add: merge_cluster_set_order [OF assms] split: sum.splits)

text \<open>
  C6. A run is \<open>main\<close> on the parsed arguments and the world: the files, the two
  library functions, and the order in which sets iterate. Two runs on the same ordered
  input with the same configuration differ at most in that order (it follows the hash
  seed of the process), and the result does not depend on it: the cluster ids, the
  members of every cluster in their order and the merged records are the same.
\<close>

theorem main_deterministic:
  assumes "set_order_contract f" "set_order_contract g"
  shows "main (w\<lparr>set_order := f\<rparr>) a = main (w\<lparr>set_order := g\<rparr>) a"
  using write_union_set_order [OF assms]
  by (simp add: main_def Let_def build_clusters_set_order split: sum.splits)

lemma remdups_set_order: "set_order_contract remdups"
  by (simp add: set_order_contract_def)
lemma rev_remdups_set_order: "set_order_contract (\<lambda>xs. rev (remdups xs))"
  by (simp add: set_order_contract_def)


theorem main_deterministic_witness:
  "set_order_contract remdups \<and> set_order_contract (\<lambda>xs. rev (remdups xs))
   \<and> main (ex_two_world\<lparr>set_order := remdups\<rparr>) ex_two_args
       = main (ex_two_world\<lparr>set_order := (\<lambda>xs. rev (remdups xs))\<rparr>) ex_two_args
   \<and> cluster_libs (main (ex_two_world\<lparr>set_order := remdups\<rparr>) ex_two_args)
       = Inr [[''LIB2'', ''LIB1'']]
   \<and> merge_notes (main (ex_two_world\<lparr>set_order := remdups\<rparr>) ex_two_args)
       = Inr [[''Registro colectivo de 2 registros. Bibliotecas: LIB1, LIB2'']]"
proof -
  have l: "cluster_libs (main (ex_two_world\<lparr>set_order := remdups\<rparr>) ex_two_args)
       = Inr [[''LIB2'', ''LIB1'']]" by code_simp
  have n: "merge_notes (main (ex_two_world\<lparr>set_order := remdups\<rparr>) ex_two_args)
       = Inr [[''Registro colectivo de 2 registros. Bibliotecas: LIB1, LIB2'']]" by code_simp
  show ?thesis
    using main_deterministic [OF remdups_set_order rev_remdups_set_order, of ex_two_world ex_two_args]
      remdups_set_order rev_remdups_set_order l n
    by simp
qed

section \<open>Records without keys\<close>

text \<open>
  A record none of whose identifier candidates is accepted, every one being rejected by
  \<open>norm_isbn\<close> or \<open>norm_issn\<close>, and whose author, title and year normalise to
  nothing has no strong key and the empty fuzzy key. Wherever it stands in the stream of
  a run, \<open>build_clusters\<close> gives it a new cluster (the id \<open>next_id\<close> of the state
  before it had no members), and whatever records follow, that cluster has this one
  member at the end of the run: the record enters neither index.
\<close>

lemma rejected_candidates_singleton:
  assumes "unidecode_contract (unidecode_tab w)"
    and "\<forall>v\<in>set (isbn_candidates r). norm_isbn V v = Inr None"
    and "\<forall>v\<in>set (issn_candidates r). norm_issn V v = None"
    and "normalize_text (unidecode_tab w) (Some (extract_author r)) = []"
    and "normalize_text (unidecode_tab w) (Some (extract_title r)) = []"
    and "normalize_text (unidecode_tab w) (Some (extract_year r)) = []"
  shows "extract_strong_key V r = Inr None \<and> build_fuzzy_key (unidecode_tab w) r = []
     \<and> (source_records w V uf srcs = Inr (earlier @ [make_source_record w uf l r None] @ later)
        \<longrightarrow> members_of (add_records (token_sort_ratio w) weak uf so init_state earlier)
              (next_id (add_records (token_sort_ratio w) weak uf so init_state earlier)) = []
          \<and> (\<exists>cls. build_clusters w V srcs weak uf so = Inr cls
                \<and> concat (map members (filter (\<lambda>k. cid k =
                       next_id (add_records (token_sort_ratio w) weak uf so init_state earlier)) cls))
                   = [make_source_record w uf l r None]))"
proof -
  let ?ratio = "token_sort_ratio w"
  let ?st = "add_records ?ratio weak uf so init_state earlier"
  let ?sr = "make_source_record w uf l r None"
  have sk: "extract_strong_key V r = Inr None"
    using assms(2,3) by (rule extract_strong_key_none)
  have fk: "build_fuzzy_key (unidecode_tab w) r = []"
    unfolding build_fuzzy_key_def using assms(1,4,5,6) by (rule fuzzy_key_empty)
  have wf: "wf_state ?st" using wf_init by (rule wf_add_records)
  have k1: "\<not> truthy (strong_key ?sr)" by (simp add: make_source_record_def truthy_def)
  have k2: "\<not> truthy (fuzzy_key ?sr)" using fk by (simp add: make_source_record_def truthy_def)
  from keyless_new [OF wf k1 k2, of ?ratio weak uf so]
  have s: "sealed (add_record ?ratio weak uf so ?st ?sr) (next_id ?st)"
    and m: "members_of (add_record ?ratio weak uf so ?st ?sr) (next_id ?st) = [?sr]" by simp_all
  have wf': "wf_state (add_record ?ratio weak uf so ?st ?sr)" using wf by (rule wf_add_record)
  have "members_of (add_records ?ratio weak uf so (add_record ?ratio weak uf so ?st ?sr) later) (next_id ?st) = [?sr]"
    using sealed_many [OF wf' s, of ?ratio weak uf so later] m by simp
  then have all: "members_of (add_records ?ratio weak uf so init_state (earlier @ [?sr] @ later)) (next_id ?st) = [?sr]"
    by (simp add: add_records_append add_records_Cons)
  have run: "source_records w V uf srcs = Inr (earlier @ [?sr] @ later)
      \<Longrightarrow> \<exists>cls. build_clusters w V srcs weak uf so = Inr cls
                \<and> concat (map members (filter (\<lambda>k. cid k = next_id ?st) cls)) = [?sr]"
    using all by (simp add: build_clusters_stream members_of_def)
  show ?thesis using sk fk members_of_fresh [OF wf] run by blast
qed

lemma rejected_candidates_singleton_example: "unidecode_contract (unidecode_tab ex_blank_world)
   \<and> extract_strong_key True ex_blank = Inr None
   \<and> build_fuzzy_key (unidecode_tab ex_blank_world) ex_blank = []
   \<and> map_sum id (map (\<lambda>k. (cid k, map local_id (members k))))
        (build_clusters ex_blank_world True [(''LIB1'', ''k.mrc'')] 92 True False)
      = Inr [(1, [''A'', ''C'']), (2, [''''])]"
proof -
  have c: "unidecode_contract (unidecode_tab ex_blank_world)"
    using ascii_tab_contract by (simp add: ex_blank_world_def)
  have h1: "\<forall>v\<in>set (isbn_candidates ex_blank). norm_isbn True v = Inr None" by code_simp
  have h2: "\<forall>v\<in>set (issn_candidates ex_blank). norm_issn True v = None" by code_simp
  have h3: "normalize_text (unidecode_tab ex_blank_world) (Some (extract_author ex_blank)) = []" by code_simp
  have h4: "normalize_text (unidecode_tab ex_blank_world) (Some (extract_title ex_blank)) = []" by code_simp
  have h5: "normalize_text (unidecode_tab ex_blank_world) (Some (extract_year ex_blank)) = []" by code_simp
  have src: "source_records ex_blank_world True True [(''LIB1'', ''k.mrc'')]
        = Inr ([make_source_record ex_blank_world True ''LIB1'' (ex_rec ''A'' ''a'') None]
               @ [make_source_record ex_blank_world True ''LIB1'' ex_blank None]
               @ [make_source_record ex_blank_world True ''LIB1'' (ex_rec ''C'' ''a'') None])"
    by code_simp
  have run: "map_sum id (map (\<lambda>k. (cid k, map local_id (members k))))
        (build_clusters ex_blank_world True [(''LIB1'', ''k.mrc'')] 92 True False)
      = Inr [(1, [''A'', ''C'']), (2, [''''])]" by code_simp
  from rejected_candidates_singleton [OF c h1 h2 h3 h4 h5, where uf = True and srcs = "[(''LIB1'', ''k.mrc'')]"
       and l = "''LIB1''" and weak = 92 and so = False
       and earlier = "[make_source_record ex_blank_world True ''LIB1'' (ex_rec ''A'' ''a'') None]"
       and later = "[make_source_record ex_blank_world True ''LIB1'' (ex_rec ''C'' ''a'') None]"] src
  have "extract_strong_key True ex_blank = Inr None"
    "build_fuzzy_key (unidecode_tab ex_blank_world) ex_blank = []" by simp_all
  with c run show ?thesis by simp
qed

text \<open>
  C7. A record with no valid identifier and no author, title or year should get no
  strong key and end in a cluster of its own. \<open>is_valid_isbn10\<close> and
  \<open>is_valid_issn\<close> catch the \<open>ValueError\<close> of \<open>int\<close> and answer \<open>False\<close>;
  \<open>is_valid_isbn13\<close> has no \<open>try\<close>. A candidate of thirteen characters that
  \<open>isdigit\<close> accepts, one of them a superscript digit, passes the test of
  \<open>is_valid_isbn13\<close> and makes \<open>int\<close> raise: key extraction does not give an
  absent key, and the run ends with the exception before any cluster is made.
\<close>

theorem invalid_isbn13_aborts_run:
  "only_digits_x ex_sup_isbn = ex_sup_isbn \<and> length ex_sup_isbn = 13
   \<and> list_all py_isdigit ex_sup_isbn
   \<and> is_valid_isbn13 ex_sup_isbn = Inl ValueError
   \<and> extract_author ex_sup_rec = [] \<and> extract_title ex_sup_rec = [] \<and> extract_year ex_sup_rec = []
   \<and> extract_strong_key True ex_sup_rec = Inl ValueError
   \<and> build_clusters ex_sup_world True [(''LIB1'', ''s.mrc'')] 92 True False = Inl ValueError
   \<and> is_valid_isbn10 (''030640615'' @ [CHR 0xB2]) = False
   \<and> is_valid_issn (''0378595'' @ [CHR 0xB2]) = False"
  by code_simp

theorem invalid_isbn13_aborts_run_witness:
  "build_clusters ex_sup_world True [(''LIB1'', ''s.mrc'')] 92 True False \<noteq> Inr []
   \<and> extract_strong_key True ex_sup_rec \<noteq> Inr None"
  using invalid_isbn13_aborts_run by simp

section \<open>The donor step of the merge\<close>

text \<open>
  One preferred tag in general (a tag in the normal form of the constructor): after
  \<open>donate\<close> the primary's record holds copies of the donor's fields of the tag when
  the donor is another member, and no field of the tag when the donor is the primary.
\<close>

lemma remove_all_tagged:
  "\<forall>y\<in>set ys. \<not> P y \<Longrightarrow>
     fold (\<lambda>f r. remove_field r f) (filter P xs) (ys @ xs) = ys @ filter (\<lambda>x. \<not> P x) xs"
proof (induction xs arbitrary: ys)
  case Nil
  then show ?case by simp
next
  case (Cons x xs)
  show ?case
  proof (cases "P x")
    case True
    with Cons.prems have "x \<notin> set ys" by auto
    then have "remove1 x (ys @ x # xs) = ys @ xs" by (simp add: remove1_append)
    with True Cons.IH [OF Cons.prems] show ?thesis by (simp add: remove_field_def)
  next
    case False
    with Cons.prems have "\<forall>y\<in>set (ys @ [x]). \<not> P y" by simp
    from Cons.IH [OF this] False show ?thesis by simp
  qed
qed

lemma get_fields_one: "get_fields [t] r = filter (\<lambda>f. tag f = t) r"
  by (simp add: get_fields_def)

lemma remove_tag:
  "fold (\<lambda>f r. remove_field r f) (get_fields [t] r) r = filter (\<lambda>f. tag f \<noteq> t) r"
  using remove_all_tagged [of "[]" "\<lambda>f. tag f = t" r] by (simp add: get_fields_one)

lemma add_copies: "fold (\<lambda>f r. add_field r (copy_field f)) fs r = r @ map copy_field fs"
  by (induction fs arbitrary: r) (simp_all add: add_field_def)

lemma tag_copy_field: "tag (copy_field f) = pymarc_tag (tag f)"
  by (simp add: copy_field_def)

lemma donate_tag:
  assumes "py_strip t0 = t" "t \<noteq> []" "p < length recs"
    "find (\<lambda>i. get_fields [t] (recs ! i) \<noteq> []) [0..<length recs] = Some b"
    "pymarc_tag t = t"
  shows "get_fields [t] (donate p t0 recs ! p)
         = (if b = p then [] else map copy_field (get_fields [t] (recs ! b)))"
proof -
  have bl: "b < length recs" using assms(4) by (auto simp: find_Some_iff)
  let ?r1 = "recs[p := filter (\<lambda>f. tag f \<noteq> t) (recs ! p)]"
  have d: "donate p t0 recs = ?r1[p := (?r1 ! p) @ map copy_field (get_fields [t] (?r1 ! b))]"
    using assms(1,2,4) by (simp add: donate_def Let_def remove_tag add_copies)
  show ?thesis
  proof (cases "b = p")
    case True
    with assms(3) d show ?thesis by (simp add: get_fields_one)
  next
    case False
    have "filter (\<lambda>f. tag f = t) (map copy_field (filter (\<lambda>f. tag f = t) (recs ! b)))
          = map copy_field (filter (\<lambda>f. tag f = t) (recs ! b))"
      unfolding filter_id_conv by (auto simp: tag_copy_field assms(5))
    with False assms(3) bl d show ?thesis by (simp add: get_fields_one)
  qed
qed


end
